theory Spec2Isabelle
  imports Main
begin

section \<open>The host-value layer used by \<^verbatim>\<open>js_schema.hpp\<close>\<close>

text \<open>
  \<^verbatim>\<open>js_schema.hpp\<close> is a template over a JavaScript engine binding \<^verbatim>\<open>T\<close>. The binding
  (\<^verbatim>\<open>js_types.hpp\<close>) and the object store's \<^verbatim>\<open>schema.hpp\<close> are not part of the source
  tree at hand, so the values they provide are modelled here as far as the parser
  observes them. The context argument \<^verbatim>\<open>ctx\<close> carries no information for the parser and
  is left out everywhere.

  An object is an association list in the iteration order of its keys; the first binding
  of a key is the one that counts, so every list denotes an object with unique keys.
  \<^verbatim>\<open>TObject\<close> and \<^verbatim>\<open>TFunction\<close> handles are values too; a handle that may be
  empty (\<^verbatim>\<open>TObject x = {}\<close>) is an \<open>option\<close>, and \<^verbatim>\<open>Value::is_valid\<close> on it is the
  case distinction between \<open>None\<close> and \<open>Some\<close>. A \<^verbatim>\<open>Protected<...>\<close> wrapper
  only keeps its value alive and is modelled by the value itself.
\<close>

datatype TValue =
    Undefined
  | Null
  | Boolean bool
  | Number int
  | JSString string
  | JSObject "(string \<times> TValue) list"
  | JSArray "TValue list"
  | JSFunction "(string \<times> TValue) list"

text \<open>The two exception classes that can leave the parser: \<^verbatim>\<open>std::runtime_error\<close>, thrown
  by \<^verbatim>\<open>js_schema.hpp\<close> itself, and the host layer's validation failure.\<close>

datatype error = runtime_error string | invalid_argument string

text \<open>Modelled from the spec: the value introspection of the host layer (is-object,
  is-array, is-constructor/callable, is-undefined/absent). Arrays and functions are objects.\<close>

fun is_object :: "TValue \<Rightarrow> bool" where
  "is_object (JSObject fs) = True"
| "is_object (JSArray xs) = True"
| "is_object (JSFunction fs) = True"
| "is_object v = False"

fun is_array :: "TValue \<Rightarrow> bool" where
  "is_array (JSArray xs) = True"
| "is_array v = False"

fun is_constructor :: "TValue \<Rightarrow> bool" where
  "is_constructor (JSFunction fs) = True"
| "is_constructor v = False"

fun is_undefined :: "TValue \<Rightarrow> bool" where
  "is_undefined Undefined = True"
| "is_undefined v = False"

text \<open>Modelled from the spec: the validated coercions of the host layer. A value of the
  wrong kind is refused with a message that names the field when the caller gave one.\<close>

definition type_error :: "string option \<Rightarrow> string \<Rightarrow> error" where
  "type_error name expected =
     invalid_argument
       ((case name of None \<Rightarrow> ''JS value'' | Some n \<Rightarrow> [CHR 0x27] @ n @ [CHR 0x27])
        @ '' must be of type: '' @ expected)"

fun validated_to_string :: "TValue \<Rightarrow> string option \<Rightarrow> error + string" where
  "validated_to_string (JSString s) name = Inr s"
| "validated_to_string v name = Inl (type_error name ''string'')"

fun validated_to_boolean :: "TValue \<Rightarrow> string option \<Rightarrow> error + bool" where
  "validated_to_boolean (Boolean b) name = Inr b"
| "validated_to_boolean v name = Inl (type_error name ''boolean'')"

definition validated_to_object :: "TValue \<Rightarrow> string option \<Rightarrow> error + TValue" where
  "validated_to_object v name = (if is_object v then Inr v else Inl (type_error name ''object''))"

text \<open>Modelled from the spec: object access of the host layer: get-named-field,
  enumerate-field-names (order-preserving), get-indexed-element, get-length (with
  validation), create-empty-object and set-named-field. A missing field reads as
  \<open>Undefined\<close>. An array answers its \<^verbatim>\<open>length\<close> and its indices; any other object is
  indexed through the decimal spelling of the index.\<close>

fun string_of_nat :: "nat \<Rightarrow> string" where
  "string_of_nat n =
     (if n < 10 then [''0123456789'' ! n]
      else string_of_nat (n div 10) @ [''0123456789'' ! (n mod 10)])"

definition lookup_field :: "(string \<times> TValue) list \<Rightarrow> string \<Rightarrow> TValue" where
  "lookup_field fs key = (case map_of fs key of None \<Rightarrow> Undefined | Some v \<Rightarrow> v)"

fun get_property :: "TValue \<Rightarrow> string \<Rightarrow> TValue" where
  "get_property (JSObject fs) key = lookup_field fs key"
| "get_property (JSFunction fs) key = lookup_field fs key"
| "get_property (JSArray xs) key =
     (if key = ''length'' then Number (int (length xs)) else Undefined)"
| "get_property v key = Undefined"

fun get_property_index :: "TValue \<Rightarrow> nat \<Rightarrow> TValue" where
  "get_property_index (JSArray xs) i = (if i < length xs then xs ! i else Undefined)"
| "get_property_index v i = get_property v (string_of_nat i)"

fun field_names :: "(string \<times> TValue) list \<Rightarrow> string list" where
  "field_names [] = []"
| "field_names (f # fs) = fst f # filter (\<lambda>k. k \<noteq> fst f) (field_names fs)"

fun get_property_names :: "TValue \<Rightarrow> string list" where
  "get_property_names (JSObject fs) = field_names fs"
| "get_property_names (JSFunction fs) = field_names fs"
| "get_property_names (JSArray xs) = map string_of_nat [0..<length xs]"
| "get_property_names v = []"

fun validated_get_length :: "TValue \<Rightarrow> error + nat" where
  "validated_get_length (JSArray xs) = Inr (length xs)"
| "validated_get_length v =
     (case get_property v ''length'' of
        Number n \<Rightarrow> if 0 \<le> n then Inr (nat n) else Inl (type_error None ''number'')
      | _ \<Rightarrow> Inl (type_error None ''number''))"

definition create_empty :: TValue where
  "create_empty = JSObject []"

fun set_field :: "(string \<times> TValue) list \<Rightarrow> string \<Rightarrow> TValue \<Rightarrow> (string \<times> TValue) list" where
  "set_field [] key v = [(key, v)]"
| "set_field (f # fs) key v = (if fst f = key then (key, v) # fs else f # set_field fs key v)"

fun set_property :: "TValue \<Rightarrow> string \<Rightarrow> TValue \<Rightarrow> TValue" where
  "set_property (JSObject fs) key v = JSObject (set_field fs key v)"
| "set_property (JSFunction fs) key v = JSFunction (set_field fs key v)"
| "set_property obj key v = obj"

text \<open>Modelled from the spec: \<^verbatim>\<open>Object::validated_get_string\<close> and
  \<^verbatim>\<open>Object::validated_get_object\<close>, a field read followed by the validated coercion. The
  optional last argument replaces the message of the failure.\<close>

definition with_message :: "string option \<Rightarrow> error + 'a \<Rightarrow> error + 'a" where
  "with_message message r =
     (case r of
        Inl e \<Rightarrow> Inl (case message of None \<Rightarrow> e | Some m \<Rightarrow> invalid_argument m)
      | Inr x \<Rightarrow> Inr x)"

definition validated_get_string :: "TValue \<Rightarrow> string \<Rightarrow> string option \<Rightarrow> error + string" where
  "validated_get_string object key message =
     with_message message (validated_to_string (get_property object key) (Some key))"

definition validated_get_object :: "TValue \<Rightarrow> string \<Rightarrow> string option \<Rightarrow> error + TValue" where
  "validated_get_object object key message =
     with_message message (validated_to_object (get_property object key) (Some key))"

definition validated_get_object_index :: "TValue \<Rightarrow> nat \<Rightarrow> error + TValue" where
  "validated_get_object_index object index =
     validated_to_object (get_property_index object index) None"

section \<open>The schema model of the object store\<close>

text \<open>Modelled from the spec: the property kinds and the \<^verbatim>\<open>Property\<close> and
  \<^verbatim>\<open>ObjectSchema\<close> structs of \<^verbatim>\<open>schema.hpp\<close>; the three flags start out false and the
  strings start out empty.\<close>

datatype PropertyType =
    PropertyTypeBool
  | PropertyTypeInt
  | PropertyTypeFloat
  | PropertyTypeDouble
  | PropertyTypeString
  | PropertyTypeDate
  | PropertyTypeData
  | PropertyTypeArray
  | PropertyTypeObject

record Property =
  name :: string
  type :: PropertyType
  object_type :: string
  is_primary :: bool
  is_indexed :: bool
  is_nullable :: bool

type_synonym ObjectDefaults = "string \<rightharpoonup> TValue"
type_synonym ObjectDefaultsMap = "string \<rightharpoonup> ObjectDefaults"
type_synonym ConstructorMap = "string \<rightharpoonup> TValue"

text \<open>\<^verbatim>\<open>std::map::emplace\<close>: the entry is inserted only when the key is not yet there.\<close>

definition emplace :: "('k \<rightharpoonup> 'v) \<Rightarrow> 'k \<Rightarrow> 'v \<Rightarrow> ('k \<rightharpoonup> 'v)" where
  "emplace m k v = (case m k of None \<Rightarrow> m(k \<mapsto> v) | Some old \<Rightarrow> m)"

section \<open>\<^verbatim>\<open>Schema<T>::parse_property\<close>\<close>

text \<open>Lines 81 to 92: a descriptor object gives its \<^verbatim>\<open>type\<close> field and may override
  \<^verbatim>\<open>is_nullable\<close> through \<^verbatim>\<open>optional\<close>; anything else must itself be the type string. The
  result is the handle \<^verbatim>\<open>property_object\<close>, the type string and \<^verbatim>\<open>prop.is_nullable\<close>.\<close>

definition read_attributes :: "TValue \<Rightarrow> error + (TValue option \<times> string \<times> bool)" where
  "read_attributes attributes =
     (if is_object attributes then
        (case validated_to_object attributes None of
           Inl e \<Rightarrow> Inl e
         | Inr property_object \<Rightarrow>
            (case validated_get_string property_object ''type'' None of
               Inl e \<Rightarrow> Inl e
             | Inr type_str \<Rightarrow>
                (let optional_value = get_property property_object ''optional'' in
                 if \<not> is_undefined optional_value then
                   (case validated_to_boolean optional_value (Some ''optional'') of
                      Inl e \<Rightarrow> Inl e
                    | Inr b \<Rightarrow> Inr (Some property_object, type_str, b))
                 else Inr (Some property_object, type_str, False))))
      else
        (case validated_to_string attributes None of
           Inl e \<Rightarrow> Inl e
         | Inr type_str \<Rightarrow> Inr (None, type_str, False)))"

text \<open>Lines 94 to 136: the chain of comparisons on the type string. The result is
  \<^verbatim>\<open>prop.type\<close>, \<^verbatim>\<open>prop.object_type\<close> and \<^verbatim>\<open>prop.is_nullable\<close>.\<close>

definition resolve_type ::
    "TValue option \<Rightarrow> string \<Rightarrow> bool \<Rightarrow> error + (PropertyType \<times> string \<times> bool)" where
  "resolve_type property_object type_str nullable =
     (if type_str = ''bool'' then Inr (PropertyTypeBool, '''', nullable)
      else if type_str = ''int'' then Inr (PropertyTypeInt, '''', nullable)
      else if type_str = ''float'' then Inr (PropertyTypeFloat, '''', nullable)
      else if type_str = ''double'' then Inr (PropertyTypeDouble, '''', nullable)
      else if type_str = ''string'' then Inr (PropertyTypeString, '''', nullable)
      else if type_str = ''date'' then Inr (PropertyTypeDate, '''', nullable)
      else if type_str = ''data'' then Inr (PropertyTypeData, '''', nullable)
      else if type_str = ''list'' then
        (case property_object of
           None \<Rightarrow> Inl (runtime_error (''List property must specify 'objectType'' @ [CHR 0x27]))
         | Some po \<Rightarrow>
            (case validated_get_string po ''objectType'' None of
               Inl e \<Rightarrow> Inl e
             | Inr ot \<Rightarrow> Inr (PropertyTypeArray, ot, nullable)))
      else if type_str = ''object'' then
        (case property_object of
           None \<Rightarrow> Inl (runtime_error (''Object property must specify 'objectType'' @ [CHR 0x27]))
         | Some po \<Rightarrow>
            (case validated_get_string po ''objectType'' None of
               Inl e \<Rightarrow> Inl e
             | Inr ot \<Rightarrow> Inr (PropertyTypeObject, ot, True)))
      else Inr (PropertyTypeObject, type_str, True))"

text \<open>The whole function. The defaults map is an in-out parameter, so it is returned next
  to the result, also when the function throws: the \<^verbatim>\<open>indexed\<close> field is validated after
  the default has been stored (lines 138 to 148).\<close>

definition parse_property ::
    "TValue \<Rightarrow> string \<Rightarrow> ObjectDefaults \<Rightarrow> (error + Property) \<times> ObjectDefaults" where
  "parse_property attributes property_name object_defaults =
     (case read_attributes attributes of
        Inl e \<Rightarrow> (Inl e, object_defaults)
      | Inr (property_object, type_str, nullable) \<Rightarrow>
         (case resolve_type property_object type_str nullable of
            Inl e \<Rightarrow> (Inl e, object_defaults)
          | Inr (ptype, otype, nullable') \<Rightarrow>
             (let prop = \<lparr>name = property_name, type = ptype, object_type = otype,
                          is_primary = False, is_indexed = False, is_nullable = nullable'\<rparr>
              in case property_object of
                   None \<Rightarrow> (Inr prop, object_defaults)
                 | Some po \<Rightarrow>
                    (let default_value = get_property po ''default'';
                         object_defaults' =
                           (if \<not> is_undefined default_value
                            then emplace object_defaults property_name default_value
                            else object_defaults);
                         indexed_value = get_property po ''indexed''
                     in if \<not> is_undefined indexed_value then
                          (case validated_to_boolean indexed_value None of
                             Inl e \<Rightarrow> (Inl e, object_defaults')
                           | Inr b \<Rightarrow> (Inr (prop\<lparr>is_indexed := b\<rparr>), object_defaults'))
                        else (Inr prop, object_defaults')))))"

section \<open>\<^verbatim>\<open>Schema<T>::parse_object_schema\<close>\<close>

record ObjectSchema =
  name :: string
  properties :: "Property list"
  primary_key :: string

text \<open>Modelled from the spec: \<^verbatim>\<open>ObjectSchema::primary_key_property\<close> of \<^verbatim>\<open>schema.hpp\<close>,
  which is not in the source tree: the contained property that the primary key names, or
  the null pointer when no property has that name. The pointer into the vector is the
  index of the first property of that name.\<close>

fun property_for_name :: "Property list \<Rightarrow> string \<Rightarrow> nat option" where
  "property_for_name [] key = None"
| "property_for_name (p # ps) key =
     (if Property.name p = key then Some 0
      else (case property_for_name ps key of None \<Rightarrow> None | Some i \<Rightarrow> Some (Suc i)))"

definition primary_key_property :: "ObjectSchema \<Rightarrow> nat option" where
  "primary_key_property object_schema =
     property_for_name (properties object_schema) (primary_key object_schema)"

text \<open>Lines 173 to 177, the loop over an array of descriptors. The indices still to visit
  are the list argument; \<open>props\<close> is \<^verbatim>\<open>object_schema.properties\<close> so far.\<close>

fun array_properties_loop ::
    "TValue \<Rightarrow> nat list \<Rightarrow> Property list \<Rightarrow> ObjectDefaults
      \<Rightarrow> (error + Property list) \<times> ObjectDefaults" where
  "array_properties_loop properties_object [] props object_defaults =
     (Inr props, object_defaults)"
| "array_properties_loop properties_object (i # rest) props object_defaults =
     (case validated_get_object_index properties_object i of
        Inl e \<Rightarrow> (Inl e, object_defaults)
      | Inr property_object \<Rightarrow>
         (case validated_get_string property_object ''name'' None of
            Inl e \<Rightarrow> (Inl e, object_defaults)
          | Inr property_name \<Rightarrow>
             (case parse_property property_object property_name object_defaults of
                (Inl e, object_defaults') \<Rightarrow> (Inl e, object_defaults')
              | (Inr prop, object_defaults') \<Rightarrow>
                  array_properties_loop properties_object rest (props @ [prop])
                    object_defaults')))"

text \<open>Lines 181 to 184, the loop over the names of a name-keyed properties object.\<close>

fun named_properties_loop ::
    "TValue \<Rightarrow> string list \<Rightarrow> Property list \<Rightarrow> ObjectDefaults
      \<Rightarrow> (error + Property list) \<times> ObjectDefaults" where
  "named_properties_loop properties_object [] props object_defaults =
     (Inr props, object_defaults)"
| "named_properties_loop properties_object (property_name # rest) props object_defaults =
     (let property_value = get_property properties_object property_name in
      case parse_property property_value property_name object_defaults of
        (Inl e, object_defaults') \<Rightarrow> (Inl e, object_defaults')
      | (Inr prop, object_defaults') \<Rightarrow>
          named_properties_loop properties_object rest (props @ [prop]) object_defaults')"

text \<open>Lines 170 to 185: the choice between the two loops, starting from no properties and
  the empty \<^verbatim>\<open>object_defaults\<close>.\<close>

definition parse_properties :: "TValue \<Rightarrow> (error + Property list) \<times> ObjectDefaults" where
  "parse_properties properties_object =
     (if is_array properties_object then
        (case validated_get_length properties_object of
           Inl e \<Rightarrow> (Inl e, Map.empty)
         | Inr len \<Rightarrow> array_properties_loop properties_object [0..<len] [] Map.empty)
      else
        named_properties_loop properties_object (get_property_names properties_object)
          [] Map.empty)"

text \<open>Lines 187 to 195: the primary key. \<open>object_schema\<close> has its name and properties
  set and its primary key still empty.\<close>

definition resolve_primary_key :: "TValue \<Rightarrow> ObjectSchema \<Rightarrow> error + ObjectSchema" where
  "resolve_primary_key object_schema_object object_schema =
     (let primary_value = get_property object_schema_object ''primaryKey'' in
      if \<not> is_undefined primary_value then
        (case validated_to_string primary_value None of
           Inl e \<Rightarrow> Inl e
         | Inr pk \<Rightarrow>
            (let object_schema' = object_schema\<lparr>primary_key := pk\<rparr> in
             case primary_key_property object_schema' of
               None \<Rightarrow>
                 Inl (runtime_error
                       (''Missing primary key property '' @ [CHR 0x27] @ pk @ [CHR 0x27]))
             | Some i \<Rightarrow>
                 Inr (object_schema'\<lparr>properties :=
                        (properties object_schema')
                          [i := (properties object_schema' ! i)\<lparr>is_primary := True\<rparr>]\<rparr>)))
      else Inr object_schema)"

text \<open>The whole function. Both maps are in-out parameters and are returned next to the
  result. Every throw comes before the two \<^verbatim>\<open>emplace\<close> calls of lines 199 and 202.\<close>

definition parse_object_schema ::
    "TValue \<Rightarrow> ObjectDefaultsMap \<Rightarrow> ConstructorMap
      \<Rightarrow> (error + ObjectSchema) \<times> ObjectDefaultsMap \<times> ConstructorMap" where
  "parse_object_schema object_schema_object0 defaults constructors =
     (let object_constructor =
            (if is_constructor object_schema_object0 then Some object_schema_object0 else None)
      in
      case (if is_constructor object_schema_object0
            then validated_get_object object_schema_object0 ''schema''
                   (Some ''Realm object constructor must have a 'schema' property.'')
            else Inr object_schema_object0) of
        Inl e \<Rightarrow> (Inl e, defaults, constructors)
      | Inr object_schema_object \<Rightarrow>
         (case validated_get_string object_schema_object ''name'' None of
            Inl e \<Rightarrow> (Inl e, defaults, constructors)
          | Inr schema_name \<Rightarrow>
             (case validated_get_object object_schema_object ''properties''
                     (Some ''ObjectSchema must have a 'properties' object.'') of
                Inl e \<Rightarrow> (Inl e, defaults, constructors)
              | Inr properties_object \<Rightarrow>
                 (case parse_properties properties_object of
                    (Inl e, object_defaults) \<Rightarrow> (Inl e, defaults, constructors)
                  | (Inr props, object_defaults) \<Rightarrow>
                     (case resolve_primary_key object_schema_object
                             \<lparr>name = schema_name, properties = props, primary_key = []\<rparr> of
                        Inl e \<Rightarrow> (Inl e, defaults, constructors)
                      | Inr object_schema \<Rightarrow>
                         (let constructors' =
                                (case object_constructor of
                                   None \<Rightarrow> constructors
                                 | Some c \<Rightarrow>
                                     emplace constructors (ObjectSchema.name object_schema) c);
                              defaults' =
                                emplace defaults (ObjectSchema.name object_schema)
                                  object_defaults
                          in (Inr object_schema, defaults', constructors')))))))"

section \<open>\<^verbatim>\<open>Schema<T>::parse_schema\<close>\<close>

text \<open>Modelled from the spec: \<^verbatim>\<open>realm::Schema\<close>, an ordered sequence of object schemas.\<close>

datatype Schema = Schema "ObjectSchema list"

text \<open>Lines 212 to 216, the loop over the declarations; \<open>schema\<close> is the vector so far.\<close>

fun parse_schema_loop ::
    "TValue \<Rightarrow> nat list \<Rightarrow> ObjectSchema list \<Rightarrow> ObjectDefaultsMap \<Rightarrow> ConstructorMap
      \<Rightarrow> (error + ObjectSchema list) \<times> ObjectDefaultsMap \<times> ConstructorMap" where
  "parse_schema_loop schema_object [] schema defaults constructors =
     (Inr schema, defaults, constructors)"
| "parse_schema_loop schema_object (i # rest) schema defaults constructors =
     (case validated_get_object_index schema_object i of
        Inl e \<Rightarrow> (Inl e, defaults, constructors)
      | Inr object_schema_object \<Rightarrow>
         (case parse_object_schema object_schema_object defaults constructors of
            (Inl e, defaults', constructors') \<Rightarrow> (Inl e, defaults', constructors')
          | (Inr object_schema, defaults', constructors') \<Rightarrow>
              parse_schema_loop schema_object rest (schema @ [object_schema])
                defaults' constructors'))"

definition parse_schema ::
    "TValue \<Rightarrow> ObjectDefaultsMap \<Rightarrow> ConstructorMap
      \<Rightarrow> (error + Schema) \<times> ObjectDefaultsMap \<times> ConstructorMap" where
  "parse_schema schema_object defaults constructors =
     (case validated_get_length schema_object of
        Inl e \<Rightarrow> (Inl e, defaults, constructors)
      | Inr len \<Rightarrow>
         (case parse_schema_loop schema_object [0..<len] [] defaults constructors of
            (Inl e, defaults', constructors') \<Rightarrow> (Inl e, defaults', constructors')
          | (Inr schema, defaults', constructors') \<Rightarrow>
              (Inr (Schema schema), defaults', constructors')))"

section \<open>\<^verbatim>\<open>Schema<T>::dict_for_property_array\<close>\<close>

text \<open>Lines 59 to 62. The loop runs only when the array length equals the number of
  properties, so every index it visits is in range of the property vector.\<close>

fun dict_loop :: "Property list \<Rightarrow> TValue \<Rightarrow> nat list \<Rightarrow> TValue \<Rightarrow> TValue" where
  "dict_loop props array [] dict = dict"
| "dict_loop props array (i # rest) dict =
     (let v = get_property_index array i in
      dict_loop props array rest (set_property dict (Property.name (props ! i)) v))"

definition dict_for_property_array :: "ObjectSchema \<Rightarrow> TValue \<Rightarrow> error + TValue" where
  "dict_for_property_array object_schema array =
     (let count = length (properties object_schema) in
      case validated_get_length array of
        Inl e \<Rightarrow> Inl e
      | Inr len \<Rightarrow>
          if count \<noteq> len
          then Inl (runtime_error ''Array must contain values for all object properties'')
          else Inr (dict_loop (properties object_schema) array [0..<count] create_empty))"

section \<open>Predicates used to state the properties\<close>

text \<open>An optional boolean field of a descriptor is well formed when it is missing or holds
  a boolean; the parser refuses every other value of \<^verbatim>\<open>optional\<close> and \<^verbatim>\<open>indexed\<close>.\<close>

fun absent_or_boolean :: "TValue \<Rightarrow> bool" where
  "absent_or_boolean Undefined = True"
| "absent_or_boolean (Boolean b) = True"
| "absent_or_boolean v = False"

text \<open>The descriptor that \<^verbatim>\<open>parse_object_schema\<close> reads (lines 161 to 164): the
  \<^verbatim>\<open>schema\<close> field of a constructor, the declaration itself otherwise.\<close>

definition schema_descriptor :: "TValue \<Rightarrow> TValue" where
  "schema_descriptor decl = (if is_constructor decl then get_property decl ''schema'' else decl)"

text \<open>The two shapes in which the same property declarations can be supplied. A
  declaration is a name with the remaining descriptor fields. The ordered-list shape is
  an array of descriptors, each carrying its own \<^verbatim>\<open>name\<close> field; the name-keyed shape
  is an object that maps each name to its descriptor, iterated in the same order.\<close>

definition list_shape :: "(string \<times> (string \<times> TValue) list) list \<Rightarrow> TValue" where
  "list_shape decls = JSArray (map (\<lambda>(n, fs). JSObject ((''name'', JSString n) # fs)) decls)"

definition keyed_shape :: "(string \<times> (string \<times> TValue) list) list \<Rightarrow> TValue" where
  "keyed_shape decls = JSObject (map (\<lambda>(n, fs). (n, JSObject fs)) decls)"

section \<open>Facts about the host-value layer\<close>

lemma validated_to_string_Inr [simp]: "validated_to_string v nm = Inr s \<longleftrightarrow> v = JSString s"
  by (cases v) simp_all

lemma validated_to_boolean_Inr [simp]: "validated_to_boolean v nm = Inr b \<longleftrightarrow> v = Boolean b"
  by (cases v) simp_all

lemma is_undefined_iff [simp]: "is_undefined v \<longleftrightarrow> v = Undefined"
  by (cases v) simp_all

lemma with_message_Inr [simp]: "with_message m r = Inr x \<longleftrightarrow> r = Inr x"
  by (simp add: with_message_def split: sum.splits)

lemma with_message_simps [simp]:
  "with_message m (Inr x) = Inr x"
  "with_message None r = r"
  "with_message (Some msg) (Inl e) = Inl (invalid_argument msg)"
  by (simp_all add: with_message_def split: sum.splits)

lemma validated_get_string_Inr:
  "validated_get_string obj key m = Inr s \<longleftrightarrow> get_property obj key = JSString s"
  by (simp add: validated_get_string_def)

lemma validated_get_object_Inr:
  "validated_get_object obj key m = Inr v \<longleftrightarrow> get_property obj key = v \<and> is_object v"
  by (auto simp: validated_get_object_def validated_to_object_def)

lemma validated_get_object_index_Inr:
  "validated_get_object_index obj i = Inr v \<longleftrightarrow> get_property_index obj i = v \<and> is_object v"
  by (auto simp: validated_get_object_index_def validated_to_object_def)

lemma absent_or_boolean_iff: "absent_or_boolean v \<longleftrightarrow> v = Undefined \<or> (\<exists>b. v = Boolean b)"
  by (cases v) simp_all

section \<open>Properties of \<^verbatim>\<open>parse_property\<close>\<close>

lemma read_attributes_bare: "read_attributes (JSString t) = Inr (None, t, False)"
  by (simp add: read_attributes_def)

lemma read_attributes_InrD:
  "read_attributes a = Inr (po, t, b) \<Longrightarrow>
     (a = JSString t \<and> po = None \<and> \<not> b) \<or>
     (is_object a \<and> po = Some a \<and> get_property a ''type'' = JSString t
       \<and> (get_property a ''optional'' = Undefined \<and> \<not> b \<or> get_property a ''optional'' = Boolean b))"
  by (cases "is_object a")
     (auto simp: read_attributes_def validated_to_object_def validated_get_string_Inr Let_def
           split: sum.splits if_splits)

lemma read_attributes_descriptor:
  "is_object a \<Longrightarrow> get_property a ''type'' = JSString t \<Longrightarrow>
   absent_or_boolean (get_property a ''optional'') \<Longrightarrow>
   read_attributes a = Inr (Some a, t, get_property a ''optional'' = Boolean True)"
  by (auto simp: read_attributes_def validated_to_object_def validated_get_string_def
        absent_or_boolean_iff Let_def split: sum.splits)

lemma parse_property_InrD:
  "parse_property a n od = (Inr p, od') \<Longrightarrow>
     \<exists>po t b pt ot b'. read_attributes a = Inr (po, t, b) \<and> resolve_type po t b = Inr (pt, ot, b')
       \<and> Property.name p = n \<and> Property.type p = pt \<and> object_type p = ot \<and> is_nullable p = b'
       \<and> is_primary p = False"
  by (auto simp: parse_property_def Let_def split: sum.splits prod.splits option.splits if_splits)

lemma parse_property_resolved:
  "read_attributes a = Inr (po, t, b) \<Longrightarrow> resolve_type po t b = Inr (pt, ot, b') \<Longrightarrow>
   (po = None \<or> absent_or_boolean (get_property a ''indexed'')) \<Longrightarrow>
   \<exists>p od'. parse_property a n od = (Inr p, od')"
  by (auto dest!: read_attributes_InrD
        simp: parse_property_def Let_def absent_or_boolean_iff split: sum.splits option.splits)

lemma resolve_type_reference:
  "t \<notin> {''bool'', ''int'', ''float'', ''double'', ''string'', ''date'', ''data'', ''list'', ''object''}
   \<Longrightarrow> resolve_type po t b = Inr (PropertyTypeObject, t, True)"
  by (simp add: resolve_type_def)

text \<open>
  Claim C1. A declaration whose type string \<open>t\<close> (the bare value, or the \<^verbatim>\<open>type\<close> field of
  a descriptor) is none of the nine keywords is a reference to the type \<open>t\<close>: every
  Property that \<^verbatim>\<open>parse_property\<close> returns for it has the object kind, \<^verbatim>\<open>object_type = t\<close>
  and \<^verbatim>\<open>is_nullable = true\<close>, whatever the \<^verbatim>\<open>optional\<close> field says. The function does
  return for the bare form and for every descriptor whose \<^verbatim>\<open>optional\<close> and \<^verbatim>\<open>indexed\<close>
  fields are missing or boolean.
\<close>

theorem parse_property_forward_reference:
  assumes kw: "t \<notin> {''bool'', ''int'', ''float'', ''double'', ''string'', ''date'', ''data'',
                     ''list'', ''object''}"
    and decl: "attributes = JSString t \<or>
               (is_object attributes \<and> get_property attributes ''type'' = JSString t)"
  shows "(\<forall>p od'. parse_property attributes n od = (Inr p, od') \<longrightarrow>
            Property.type p = PropertyTypeObject \<and> object_type p = t \<and> is_nullable p)
       \<and> (absent_or_boolean (get_property attributes ''optional'') \<and>
          absent_or_boolean (get_property attributes ''indexed'') \<longrightarrow>
            (\<exists>p od'. parse_property attributes n od = (Inr p, od')))"
proof (intro conjI allI impI)
  fix p od'
  assume ok: "parse_property attributes n od = (Inr p, od')"
  from parse_property_InrD [OF ok] obtain po t' b pt ot b' where
    ra: "read_attributes attributes = Inr (po, t', b)" and
    rt: "resolve_type po t' b = Inr (pt, ot, b')" and
    p: "Property.type p = pt" "object_type p = ot" "is_nullable p = b'"
    by blast
  from read_attributes_InrD [OF ra] decl have "t' = t"
    by auto
  with rt resolve_type_reference [OF kw] have "pt = PropertyTypeObject" "ot = t" "b'"
    by simp_all
  with p show "Property.type p = PropertyTypeObject" "object_type p = t" "is_nullable p"
    by simp_all
next
  assume wf: "absent_or_boolean (get_property attributes ''optional'') \<and>
              absent_or_boolean (get_property attributes ''indexed'')"
  from decl show "\<exists>p od'. parse_property attributes n od = (Inr p, od')"
  proof
    assume "attributes = JSString t"
    then show ?thesis
      using parse_property_resolved [OF read_attributes_bare resolve_type_reference [OF kw]]
      by simp
  next
    assume d: "is_object attributes \<and> get_property attributes ''type'' = JSString t"
    with wf have "read_attributes attributes =
        Inr (Some attributes, t, get_property attributes ''optional'' = Boolean True)"
      by (simp add: read_attributes_descriptor)
    from parse_property_resolved [OF this resolve_type_reference [OF kw]] wf
    show ?thesis by simp
  qed
qed

theorem parse_property_forward_reference_witness:
  "\<exists>p od'. parse_property (JSObject [(''type'', JSString ''Person''), (''optional'', Boolean False)])
              ''owner'' Map.empty = (Inr p, od')
     \<and> Property.type p = PropertyTypeObject \<and> object_type p = ''Person'' \<and> is_nullable p"
  using parse_property_forward_reference
    [of "''Person''" "JSObject [(''type'', JSString ''Person''), (''optional'', Boolean False)]"
        "''owner''" Map.empty]
  by (auto simp: lookup_field_def)

lemma resolve_type_scalar:
  assumes "(t, k) \<in> set [(''bool'', PropertyTypeBool), (''int'', PropertyTypeInt),
                  (''float'', PropertyTypeFloat), (''double'', PropertyTypeDouble),
                  (''string'', PropertyTypeString), (''date'', PropertyTypeDate),
                  (''data'', PropertyTypeData)]"
  shows "resolve_type po t b = Inr (k, '''', b)"
proof -
  from assms have
    "t = ''bool'' \<and> k = PropertyTypeBool \<or> t = ''int'' \<and> k = PropertyTypeInt \<or>
     t = ''float'' \<and> k = PropertyTypeFloat \<or> t = ''double'' \<and> k = PropertyTypeDouble \<or>
     t = ''string'' \<and> k = PropertyTypeString \<or> t = ''date'' \<and> k = PropertyTypeDate \<or>
     t = ''data'' \<and> k = PropertyTypeData"
    by simp
  then show ?thesis
    by (elim disjE conjE) (simp_all add: resolve_type_def)
qed

text \<open>
  Claim C8. For a declaration whose type string is one of the seven scalar keywords, every
  Property that \<^verbatim>\<open>parse_property\<close> returns has exactly the matching kind and an empty
  \<^verbatim>\<open>object_type\<close>, in the bare form and in the descriptor form; the function returns
  whenever \<^verbatim>\<open>optional\<close> and \<^verbatim>\<open>indexed\<close> are missing or boolean. In the bare form the
  result is the Property with all three flags false, and the defaults map is returned
  unchanged.
\<close>

theorem parse_property_scalar:
  assumes kw: "(t, k) \<in> set [(''bool'', PropertyTypeBool), (''int'', PropertyTypeInt),
                  (''float'', PropertyTypeFloat), (''double'', PropertyTypeDouble),
                  (''string'', PropertyTypeString), (''date'', PropertyTypeDate),
                  (''data'', PropertyTypeData)]"
    and decl: "attributes = JSString t \<or>
               (is_object attributes \<and> get_property attributes ''type'' = JSString t)"
  shows "(\<forall>p od'. parse_property attributes n od = (Inr p, od') \<longrightarrow>
            Property.type p = k \<and> object_type p = '''')
       \<and> (absent_or_boolean (get_property attributes ''optional'') \<and>
          absent_or_boolean (get_property attributes ''indexed'') \<longrightarrow>
            (\<exists>p od'. parse_property attributes n od = (Inr p, od')))
       \<and> parse_property (JSString t) n od =
           (Inr \<lparr>Property.name = n, type = k, object_type = '''', is_primary = False,
                 is_indexed = False, is_nullable = False\<rparr>, od)"
proof (intro conjI allI impI)
  fix p od'
  assume ok: "parse_property attributes n od = (Inr p, od')"
  from parse_property_InrD [OF ok] obtain po t' b pt ot b' where
    ra: "read_attributes attributes = Inr (po, t', b)" and
    rt: "resolve_type po t' b = Inr (pt, ot, b')" and
    p: "Property.type p = pt" "object_type p = ot"
    by blast
  from read_attributes_InrD [OF ra] decl have "t' = t"
    by auto
  with rt resolve_type_scalar [OF kw] have "pt = k" "ot = ''''"
    by simp_all
  with p show "Property.type p = k" "object_type p = ''''"
    by simp_all
next
  assume wf: "absent_or_boolean (get_property attributes ''optional'') \<and>
              absent_or_boolean (get_property attributes ''indexed'')"
  from decl show "\<exists>p od'. parse_property attributes n od = (Inr p, od')"
  proof
    assume "attributes = JSString t"
    then show ?thesis
      using parse_property_resolved [OF read_attributes_bare resolve_type_scalar [OF kw]]
      by simp
  next
    assume d: "is_object attributes \<and> get_property attributes ''type'' = JSString t"
    with wf have "read_attributes attributes =
        Inr (Some attributes, t, get_property attributes ''optional'' = Boolean True)"
      by (simp add: read_attributes_descriptor)
    from parse_property_resolved [OF this resolve_type_scalar [OF kw]] wf
    show ?thesis by simp
  qed
next
  show "parse_property (JSString t) n od =
           (Inr \<lparr>Property.name = n, type = k, object_type = '''', is_primary = False,
                 is_indexed = False, is_nullable = False\<rparr>, od)"
    by (simp add: parse_property_def read_attributes_bare resolve_type_scalar [OF kw])
qed

theorem parse_property_scalar_witness:
  "parse_property (JSString ''date'') ''born'' Map.empty =
     (Inr \<lparr>Property.name = ''born'', type = PropertyTypeDate, object_type = '''',
           is_primary = False, is_indexed = False, is_nullable = False\<rparr>, Map.empty)
   \<and> (\<exists>p od'. parse_property (JSObject [(''type'', JSString ''int''), (''indexed'', Boolean True),
                                         (''default'', Number 0)]) ''age'' Map.empty = (Inr p, od')
        \<and> Property.type p = PropertyTypeInt \<and> object_type p = '''')"
  using parse_property_scalar [of "''date''" PropertyTypeDate "JSString ''date''" "''born''" Map.empty]
    parse_property_scalar [of "''int''" PropertyTypeInt
       "JSObject [(''type'', JSString ''int''), (''indexed'', Boolean True), (''default'', Number 0)]"
       "''age''" Map.empty]
  by (auto simp: lookup_field_def)

lemma resolve_type_scalar_kind:
  assumes "t \<in> {''bool'', ''int'', ''float'', ''double'', ''string'', ''date'', ''data''}"
    and "resolve_type po t b = Inr (pt, ot, b')"
  shows "pt \<noteq> PropertyTypeArray \<and> pt \<noteq> PropertyTypeObject \<and> ot = ''''"
proof -
  from assms(1) have
    "t = ''bool'' \<or> t = ''int'' \<or> t = ''float'' \<or> t = ''double'' \<or> t = ''string'' \<or>
     t = ''date'' \<or> t = ''data''"
    by simp
  then show ?thesis
    using assms(2) by (elim disjE) (simp_all add: resolve_type_def)
qed

lemma resolve_type_list:
  "resolve_type po ''list'' b = Inr (pt, ot, b') \<Longrightarrow>
     \<exists>a. po = Some a \<and> pt = PropertyTypeArray \<and> get_property a ''objectType'' = JSString ot"
  by (cases po) (auto simp: resolve_type_def validated_get_string_Inr split: sum.splits)

lemma resolve_type_object:
  "resolve_type po ''object'' b = Inr (pt, ot, b') \<Longrightarrow>
     \<exists>a. po = Some a \<and> pt = PropertyTypeObject \<and> get_property a ''objectType'' = JSString ot"
  by (cases po) (auto simp: resolve_type_def validated_get_string_Inr split: sum.splits)

text \<open>
  Claim C9, as amended. The parser never checks that a string is non-empty. What holds
  for every Property returned by \<^verbatim>\<open>parse_property\<close>, with \<open>t\<close> the type string of the
  declaration: for a scalar keyword the kind is neither list nor object reference and
  \<^verbatim>\<open>object_type\<close> is empty; for \<^verbatim>\<open>list\<close> the kind is the list kind and
  \<^verbatim>\<open>object_type\<close> is the string in the descriptor's \<^verbatim>\<open>objectType\<close> field; for the
  keyword \<^verbatim>\<open>object\<close> the kind is the object-reference kind and \<^verbatim>\<open>object_type\<close> is
  again the string of the \<^verbatim>\<open>objectType\<close> field; for any other type string the kind
  is the object-reference kind and \<^verbatim>\<open>object_type\<close> is the type string itself. Read by
  kind: \<^verbatim>\<open>object_type\<close> is empty for every kind other than list and object reference,
  the list kind comes only from \<^verbatim>\<open>list\<close>, and the object-reference kind only from
  \<^verbatim>\<open>object\<close> or a type string that is no keyword. So \<^verbatim>\<open>object_type\<close> is non-empty
  exactly when the string it was copied from is.
\<close>

theorem parse_property_object_type:
  assumes ok: "parse_property a n od = (Inr p, od')"
  shows "\<exists>t. (a = JSString t \<or> (is_object a \<and> get_property a ''type'' = JSString t))
       \<and> (t \<in> {''bool'', ''int'', ''float'', ''double'', ''string'', ''date'', ''data''} \<longrightarrow>
            Property.type p \<noteq> PropertyTypeArray \<and> Property.type p \<noteq> PropertyTypeObject \<and>
            object_type p = '''')
       \<and> (t = ''list'' \<longrightarrow>
            is_object a \<and> Property.type p = PropertyTypeArray \<and>
            get_property a ''objectType'' = JSString (object_type p))
       \<and> (t = ''object'' \<longrightarrow>
            is_object a \<and> Property.type p = PropertyTypeObject \<and>
            get_property a ''objectType'' = JSString (object_type p))
       \<and> (t \<notin> {''bool'', ''int'', ''float'', ''double'', ''string'', ''date'', ''data'',
                 ''list'', ''object''} \<longrightarrow>
            Property.type p = PropertyTypeObject \<and> object_type p = t)
       \<and> (Property.type p \<noteq> PropertyTypeArray \<and> Property.type p \<noteq> PropertyTypeObject \<longrightarrow>
            object_type p = '''')
       \<and> (Property.type p = PropertyTypeArray \<longrightarrow> t = ''list'')
       \<and> (Property.type p = PropertyTypeObject \<longrightarrow>
            t \<notin> {''bool'', ''int'', ''float'', ''double'', ''string'', ''date'', ''data'',
                  ''list''})"
proof -
  from parse_property_InrD [OF ok] obtain po t b pt ot b' where
    ra: "read_attributes a = Inr (po, t, b)" and
    rt: "resolve_type po t b = Inr (pt, ot, b')" and
    p: "Property.type p = pt" "object_type p = ot"
    by blast
  from read_attributes_InrD [OF ra]
  have src: "(a = JSString t \<and> po = None) \<or>
             (is_object a \<and> po = Some a \<and> get_property a ''type'' = JSString t)"
    by auto
  then have decl: "a = JSString t \<or> (is_object a \<and> get_property a ''type'' = JSString t)"
    by auto
  have scalar: "t \<in> {''bool'', ''int'', ''float'', ''double'', ''string'', ''date'', ''data''} \<longrightarrow>
      pt \<noteq> PropertyTypeArray \<and> pt \<noteq> PropertyTypeObject \<and> ot = ''''"
    using rt by (intro impI) (rule resolve_type_scalar_kind)
  have list: "t = ''list'' \<longrightarrow>
      is_object a \<and> pt = PropertyTypeArray \<and> get_property a ''objectType'' = JSString ot"
    using resolve_type_list [of po b pt ot b'] rt src by auto
  have object: "t = ''object'' \<longrightarrow>
      is_object a \<and> pt = PropertyTypeObject \<and> get_property a ''objectType'' = JSString ot"
    using resolve_type_object [of po b pt ot b'] rt src by auto
  have reference: "t \<notin> {''bool'', ''int'', ''float'', ''double'', ''string'', ''date'', ''data'',
               ''list'', ''object''} \<longrightarrow> pt = PropertyTypeObject \<and> ot = t"
  proof
    assume r: "t \<notin> {''bool'', ''int'', ''float'', ''double'', ''string'', ''date'', ''data'',
               ''list'', ''object''}"
    from resolve_type_reference [OF r, of po b] rt show "pt = PropertyTypeObject \<and> ot = t"
      by simp
  qed
  have split9: "t \<in> {''bool'', ''int'', ''float'', ''double'', ''string'', ''date'', ''data''} \<or>
      t = ''list'' \<or> t = ''object''"
    if "t \<in> {''bool'', ''int'', ''float'', ''double'', ''string'', ''date'', ''data'',
               ''list'', ''object''}"
    using that by simp
  have split8: "t \<in> {''bool'', ''int'', ''float'', ''double'', ''string'', ''date'', ''data''} \<or>
      t = ''list''"
    if "t \<in> {''bool'', ''int'', ''float'', ''double'', ''string'', ''date'', ''data'', ''list''}"
    using that by simp
  have empty: "pt \<noteq> PropertyTypeArray \<and> pt \<noteq> PropertyTypeObject \<longrightarrow> ot = ''''"
  proof
    assume k: "pt \<noteq> PropertyTypeArray \<and> pt \<noteq> PropertyTypeObject"
    show "ot = ''''"
    proof (cases "t \<in> {''bool'', ''int'', ''float'', ''double'', ''string'', ''date'', ''data'',
               ''list'', ''object''}")
      case False
      with reference k show ?thesis
        by (elim impE conjE) simp_all
    next
      case True
      from split9 [OF True] show ?thesis
      proof (elim disjE)
        assume "t \<in> {''bool'', ''int'', ''float'', ''double'', ''string'', ''date'', ''data''}"
        with scalar show ?thesis
          by (elim impE conjE)
      next
        assume "t = ''list''"
        with list k show ?thesis
          by (elim impE conjE) simp_all
      next
        assume "t = ''object''"
        with object k show ?thesis
          by (elim impE conjE) simp_all
      qed
    qed
  qed
  have only_ref: "pt = PropertyTypeObject \<longrightarrow>
      t \<notin> {''bool'', ''int'', ''float'', ''double'', ''string'', ''date'', ''data'', ''list''}"
  proof (intro impI notI)
    assume k: "pt = PropertyTypeObject"
      and "t \<in> {''bool'', ''int'', ''float'', ''double'', ''string'', ''date'', ''data'', ''list''}"
    from split8 [OF this(2)] show False
    proof (elim disjE)
      assume "t \<in> {''bool'', ''int'', ''float'', ''double'', ''string'', ''date'', ''data''}"
      with scalar k show False
        by (elim impE conjE) simp_all
    next
      assume "t = ''list''"
      with list k show False
        by (elim impE conjE) simp_all
    qed
  qed
  have only_list: "pt = PropertyTypeArray \<longrightarrow> t = ''list''"
  proof
    assume k: "pt = PropertyTypeArray"
    show "t = ''list''"
    proof (cases "t \<in> {''bool'', ''int'', ''float'', ''double'', ''string'', ''date'', ''data'',
               ''list'', ''object''}")
      case False
      with reference k show ?thesis
        by (elim impE conjE) simp_all
    next
      case True
      from split9 [OF True] show ?thesis
      proof (elim disjE)
        assume "t \<in> {''bool'', ''int'', ''float'', ''double'', ''string'', ''date'', ''data''}"
        with scalar k show ?thesis
          by (elim impE conjE) simp_all
      next
        assume "t = ''list''"
        then show ?thesis .
      next
        assume "t = ''object''"
        with object k show ?thesis
          by (elim impE conjE) simp_all
      qed
    qed
  qed
  show ?thesis
    unfolding p
    by (rule exI [of _ t], intro conjI, fact decl, fact scalar, fact list, fact object,
        fact reference, fact empty, fact only_list, fact only_ref)
qed


theorem parse_property_object_type_witness:
  "parse_property (JSObject [(''type'', JSString ''object''), (''objectType'', JSString ''Person'')])
      ''owner'' Map.empty =
     (Inr \<lparr>Property.name = ''owner'', type = PropertyTypeObject, object_type = ''Person'',
           is_primary = False, is_indexed = False, is_nullable = True\<rparr>, Map.empty)
   \<and> get_property (JSObject [(''type'', JSString ''object''), (''objectType'', JSString ''Person'')])
        ''objectType'' =
       JSString (object_type
         \<lparr>Property.name = ''owner'', type = PropertyTypeObject, object_type = ''Person'',
           is_primary = False, is_indexed = False, is_nullable = True\<rparr>)"
proof -
  let ?a = "JSObject [(''type'', JSString ''object''), (''objectType'', JSString ''Person'')]"
  let ?p = "\<lparr>Property.name = ''owner'', type = PropertyTypeObject, object_type = ''Person'',
           is_primary = False, is_indexed = False, is_nullable = True\<rparr>"
  have ev: "parse_property ?a ''owner'' Map.empty = (Inr ?p, Map.empty)"
    by (simp add: parse_property_def read_attributes_def resolve_type_def validated_to_object_def
          validated_get_string_def lookup_field_def)
  from parse_property_object_type [OF ev]
  have "get_property ?a ''objectType'' = JSString (object_type ?p)"
  proof (elim exE conjE)
    fix t
    assume d: "?a = JSString t \<or> (is_object ?a \<and> get_property ?a ''type'' = JSString t)"
      and o: "t = ''object'' \<longrightarrow>
            is_object ?a \<and> Property.type ?p = PropertyTypeObject \<and>
            get_property ?a ''objectType'' = JSString (object_type ?p)"
    from d have "t = ''object''"
      by (simp add: lookup_field_def)
    with o show ?thesis
      by (elim impE conjE)
  qed
  with ev show ?thesis
    by (intro conjI)
qed

text \<open>
  Claim C9 as stated fails: a list descriptor whose \<^verbatim>\<open>objectType\<close> is the empty string,
  and the empty string as a bare type, both give a Property of a reference-like kind with
  an empty \<^verbatim>\<open>object_type\<close>.
\<close>

theorem parse_property_empty_object_type:
  "parse_property (JSObject [(''type'', JSString ''list''), (''objectType'', JSString '''')])
      ''dogs'' Map.empty =
     (Inr \<lparr>Property.name = ''dogs'', type = PropertyTypeArray, object_type = '''',
           is_primary = False, is_indexed = False, is_nullable = False\<rparr>, Map.empty)
   \<and> parse_property (JSString '''') ''owner'' Map.empty =
     (Inr \<lparr>Property.name = ''owner'', type = PropertyTypeObject, object_type = '''',
           is_primary = False, is_indexed = False, is_nullable = True\<rparr>, Map.empty)"
  by (simp add: parse_property_def read_attributes_def resolve_type_def validated_to_object_def
        validated_get_string_def lookup_field_def)

text \<open>
  Claim C4 as stated fails for the descriptor form: a list descriptor without
  \<^verbatim>\<open>objectType\<close> passes the test of line 116 and fails in the validated read of line 120,
  with the host layer's error for the field and not with the list-specific message.
\<close>

theorem parse_property_list_missing_object_type:
  "fst (parse_property (JSObject [(''type'', JSString ''list'')]) ''dogs'' Map.empty) =
     Inl (type_error (Some ''objectType'') ''string'')
   \<and> fst (parse_property (JSObject [(''type'', JSString ''list'')]) ''dogs'' Map.empty) \<noteq>
     Inl (runtime_error (''List property must specify 'objectType'' @ [CHR 0x27]))"
  by (simp add: parse_property_def read_attributes_def resolve_type_def validated_to_object_def
        validated_get_string_def lookup_field_def type_error_def)

text \<open>
  Claim C4, as amended. The bare string \<^verbatim>\<open>list\<close> fails with the runtime error
  \<^verbatim>\<open>List property must specify 'objectType'\<close>. A list descriptor with no \<^verbatim>\<open>objectType\<close>
  field (and a well-formed \<^verbatim>\<open>optional\<close>) fails with the host layer's string-validation
  error for the field \<^verbatim>\<open>objectType\<close>. A list descriptor with \<^verbatim>\<open>objectType = x\<close> yields,
  whenever the parse returns, a Property of the list kind with \<^verbatim>\<open>object_type = x\<close>, and
  the parse returns when \<^verbatim>\<open>optional\<close> and \<^verbatim>\<open>indexed\<close> are missing or boolean.
\<close>

theorem parse_property_list:
  "parse_property (JSString ''list'') n od =
     (Inl (runtime_error (''List property must specify 'objectType'' @ [CHR 0x27])), od)
   \<and> (is_object a \<and> get_property a ''type'' = JSString ''list'' \<and>
        absent_or_boolean (get_property a ''optional'') \<and>
        get_property a ''objectType'' = Undefined \<longrightarrow>
        parse_property a n od = (Inl (type_error (Some ''objectType'') ''string''), od))
   \<and> (is_object a \<and> get_property a ''type'' = JSString ''list'' \<and>
        get_property a ''objectType'' = JSString x \<longrightarrow>
        (\<forall>p od'. parse_property a n od = (Inr p, od') \<longrightarrow>
            Property.type p = PropertyTypeArray \<and> object_type p = x) \<and>
        (absent_or_boolean (get_property a ''optional'') \<and>
         absent_or_boolean (get_property a ''indexed'') \<longrightarrow>
           (\<exists>p od'. parse_property a n od = (Inr p, od'))))"
proof (intro conjI impI allI)
  show "parse_property (JSString ''list'') n od =
     (Inl (runtime_error (''List property must specify 'objectType'' @ [CHR 0x27])), od)"
    by (simp add: parse_property_def read_attributes_bare resolve_type_def)
next
  assume h: "is_object a \<and> get_property a ''type'' = JSString ''list'' \<and>
        absent_or_boolean (get_property a ''optional'') \<and>
        get_property a ''objectType'' = Undefined"
  then have "read_attributes a = Inr (Some a, ''list'', get_property a ''optional'' = Boolean True)"
    by (simp add: read_attributes_descriptor)
  moreover from h have "resolve_type (Some a) ''list'' b =
      Inl (type_error (Some ''objectType'') ''string'')" for b
    by (simp add: resolve_type_def validated_get_string_def)
  ultimately show "parse_property a n od = (Inl (type_error (Some ''objectType'') ''string''), od)"
    by (simp add: parse_property_def)
next
  fix p od'
  assume h: "is_object a \<and> get_property a ''type'' = JSString ''list'' \<and>
        get_property a ''objectType'' = JSString x"
    and ok: "parse_property a n od = (Inr p, od')"
  from parse_property_InrD [OF ok] obtain po t b pt ot b' where
    ra: "read_attributes a = Inr (po, t, b)" and
    rt: "resolve_type po t b = Inr (pt, ot, b')" and
    p: "Property.type p = pt" "object_type p = ot"
    by blast
  from read_attributes_InrD [OF ra] h have "t = ''list''" "po = Some a"
    by auto
  with rt h have "pt = PropertyTypeArray" "ot = x"
    by (simp_all add: resolve_type_def validated_get_string_def)
  with p show "Property.type p = PropertyTypeArray" "object_type p = x"
    by simp_all
next
  assume h: "is_object a \<and> get_property a ''type'' = JSString ''list'' \<and>
        get_property a ''objectType'' = JSString x"
    and wf: "absent_or_boolean (get_property a ''optional'') \<and>
         absent_or_boolean (get_property a ''indexed'')"
  from h wf have ra: "read_attributes a =
      Inr (Some a, ''list'', get_property a ''optional'' = Boolean True)"
    by (simp add: read_attributes_descriptor)
  from h have rt: "resolve_type (Some a) ''list'' (get_property a ''optional'' = Boolean True) =
      Inr (PropertyTypeArray, x, get_property a ''optional'' = Boolean True)"
    by (simp add: resolve_type_def validated_get_string_def)
  from parse_property_resolved [OF ra rt] wf
  show "\<exists>p od'. parse_property a n od = (Inr p, od')"
    by simp
qed

theorem parse_property_list_witness:
  "\<exists>p od'. parse_property (JSObject [(''type'', JSString ''list''), (''objectType'', JSString ''Dog'')])
       ''dogs'' Map.empty = (Inr p, od')
     \<and> Property.type p = PropertyTypeArray \<and> object_type p = ''Dog''"
  using parse_property_list
    [of "''dogs''" Map.empty "JSObject [(''type'', JSString ''list''), (''objectType'', JSString ''Dog'')]"
        "''Dog''"]
  by (auto simp: lookup_field_def)

section \<open>Properties of \<^verbatim>\<open>parse_object_schema\<close> and \<^verbatim>\<open>parse_schema\<close>: the output maps\<close>

lemma emplace_dom: "dom (emplace m k v) = insert k (dom m)"
  by (auto simp: emplace_def split: option.splits)

lemma emplace_le: "m \<subseteq>\<^sub>m emplace m k v"
  by (auto simp: emplace_def map_le_def split: option.splits)

lemma parse_object_schema_Inl_state:
  "parse_object_schema decl d c = (Inl e, d', c') \<Longrightarrow> d' = d \<and> c' = c"
  by (auto simp: parse_object_schema_def Let_def split: sum.splits prod.splits if_splits)

lemma parse_object_schema_InrD:
  "parse_object_schema decl d c = (Inr os, d', c') \<Longrightarrow>
     \<exists>nm props od.
        (is_constructor decl \<longrightarrow> is_object (schema_descriptor decl))
      \<and> get_property (schema_descriptor decl) ''name'' = JSString nm
      \<and> is_object (get_property (schema_descriptor decl) ''properties'')
      \<and> parse_properties (get_property (schema_descriptor decl) ''properties'') = (Inr props, od)
      \<and> resolve_primary_key (schema_descriptor decl)
           \<lparr>name = nm, properties = props, primary_key = []\<rparr> = Inr os
      \<and> d' = emplace d (ObjectSchema.name os) od
      \<and> c' = (if is_constructor decl then emplace c (ObjectSchema.name os) decl else c)"
  by (auto simp: parse_object_schema_def schema_descriptor_def Let_def validated_get_object_Inr
        validated_get_string_Inr split: sum.splits prod.splits if_splits)

lemma parse_object_schema_result_indep:
  "fst (parse_object_schema decl d c) = fst (parse_object_schema decl d0 c0)"
  by (auto simp: parse_object_schema_def Let_def split: sum.splits prod.splits if_splits)

text \<open>
  Claim C10. \<^verbatim>\<open>parse_object_schema\<close> is atomic per declaration with respect to its output
  maps: whenever it throws, both maps are exactly as they were passed in, since the two
  \<^verbatim>\<open>emplace\<close> calls come after every failure point. When it returns, the defaults map
  has an entry under the type name, the constructor map has one when the declaration was a
  constructor, and nothing that was in the maps is lost.
\<close>

theorem parse_object_schema_atomic:
  "(\<forall>e d' c'. parse_object_schema decl d c = (Inl e, d', c') \<longrightarrow> d' = d \<and> c' = c)
   \<and> (\<forall>os d' c'. parse_object_schema decl d c = (Inr os, d', c') \<longrightarrow>
         ObjectSchema.name os \<in> dom d' \<and> d \<subseteq>\<^sub>m d' \<and> c \<subseteq>\<^sub>m c' \<and>
         (is_constructor decl \<longrightarrow> ObjectSchema.name os \<in> dom c'))"
proof -
  have fail: "d' = d \<and> c' = c" if "parse_object_schema decl d c = (Inl e, d', c')" for e d' c'
    using that by (rule parse_object_schema_Inl_state)
  have succ: "ObjectSchema.name os \<in> dom d' \<and> d \<subseteq>\<^sub>m d' \<and> c \<subseteq>\<^sub>m c' \<and>
         (is_constructor decl \<longrightarrow> ObjectSchema.name os \<in> dom c')"
    if ok: "parse_object_schema decl d c = (Inr os, d', c')" for os d' c'
  proof -
    from parse_object_schema_InrD [OF ok] obtain od where
      "d' = emplace d (ObjectSchema.name os) od"
      "c' = (if is_constructor decl then emplace c (ObjectSchema.name os) decl else c)"
      by blast
    then show ?thesis
      by (simp add: emplace_dom emplace_le)
  qed
  from fail succ show ?thesis
    by blast
qed

theorem parse_object_schema_atomic_witness:
  "parse_object_schema
     (JSObject [(''name'', JSString ''Dog''),
                (''properties'', JSObject [(''age'', JSObject [(''type'', JSString ''int''),
                                                               (''default'', Number 1)]),
                                           (''toys'', JSString ''list'')])])
     Map.empty Map.empty =
   (Inl (runtime_error (''List property must specify 'objectType'' @ [CHR 0x27])),
    Map.empty, Map.empty)"
proof -
  let ?decl = "JSObject [(''name'', JSString ''Dog''),
                (''properties'', JSObject [(''age'', JSObject [(''type'', JSString ''int''),
                                                               (''default'', Number 1)]),
                                           (''toys'', JSString ''list'')])]"
  have "fst (parse_object_schema ?decl Map.empty Map.empty) =
      Inl (runtime_error (''List property must specify 'objectType'' @ [CHR 0x27]))"
    by (simp add: parse_object_schema_def parse_properties_def parse_property_def
          read_attributes_def resolve_type_def validated_to_object_def validated_get_string_def
          validated_get_object_def lookup_field_def emplace_def)
  with parse_object_schema_atomic [of ?decl Map.empty Map.empty] show ?thesis
    by (metis prod.collapse)
qed

lemma parse_schema_loop_append:
  "parse_schema_loop so (xs @ ys) acc d c =
     (case parse_schema_loop so xs acc d c of
        (Inl e, d', c') \<Rightarrow> (Inl e, d', c')
      | (Inr acc', d', c') \<Rightarrow> parse_schema_loop so ys acc' d' c')"
  by (induction xs arbitrary: acc d c) (auto split: sum.splits prod.splits)

lemma parse_schema_loop_cong:
  "(\<And>i. i \<in> set xs \<Longrightarrow> get_property_index so i = get_property_index so' i) \<Longrightarrow>
   parse_schema_loop so xs acc d c = parse_schema_loop so' xs acc d c"
  by (induction xs arbitrary: acc d c)
     (auto simp: validated_get_object_index_def split: sum.splits prod.splits)

lemma parse_schema_loop_InrD:
  "parse_schema_loop so xs acc d c = (Inr ss, d', c') \<Longrightarrow>
     \<exists>new. ss = acc @ new \<and> (\<forall>os \<in> set new. ObjectSchema.name os \<in> dom d')
        \<and> d \<subseteq>\<^sub>m d' \<and> c \<subseteq>\<^sub>m c'"
proof (induction xs arbitrary: acc d c)
  case Nil
  then show ?case by simp
next
  case (Cons i xs)
  from Cons.prems obtain decl os d1 c1 where
    step: "parse_object_schema decl d c = (Inr os, d1, c1)" and
    rest: "parse_schema_loop so xs (acc @ [os]) d1 c1 = (Inr ss, d', c')"
    by (auto split: sum.splits prod.splits)
  from parse_object_schema_InrD [OF step] obtain od where
    d1: "d1 = emplace d (ObjectSchema.name os) od" and
    c1: "c1 = (if is_constructor decl then emplace c (ObjectSchema.name os) decl else c)"
    by blast
  from Cons.IH [OF rest] obtain new where
    new: "ss = (acc @ [os]) @ new" "\<forall>os \<in> set new. ObjectSchema.name os \<in> dom d'"
      "d1 \<subseteq>\<^sub>m d'" "c1 \<subseteq>\<^sub>m c'"
    by blast
  from d1 have "d \<subseteq>\<^sub>m d1" "ObjectSchema.name os \<in> dom d1"
    by (simp_all add: emplace_le emplace_dom)
  moreover from c1 have "c \<subseteq>\<^sub>m c1"
    by (simp add: emplace_le)
  ultimately have "d \<subseteq>\<^sub>m d'" "c \<subseteq>\<^sub>m c'" "ObjectSchema.name os \<in> dom d'"
    using new(3,4) by (auto intro: map_le_trans dest: map_le_implies_dom_le)
  with new(1,2) show ?case
    by (intro exI [of _ "os # new"]) simp
qed

lemma parse_schema_loop_fail:
  assumes "fst (parse_schema (JSArray [x]) d0 c0) = Inl e"
    and "get_property_index so k = x"
  shows "parse_schema_loop so (k # rest) acc d c = (Inl e, d, c)"
proof (cases "is_object x")
  case False
  with assms show ?thesis
    by (simp add: parse_schema_def validated_get_object_index_def validated_to_object_def)
next
  case True
  with assms(1) have "fst (parse_object_schema x d0 c0) = Inl e"
    by (auto simp: parse_schema_def validated_get_object_index_def validated_to_object_def
          split: sum.splits prod.splits)
  then have "fst (parse_object_schema x d c) = Inl e"
    using parse_object_schema_result_indep [of x d c d0 c0] by simp
  then obtain d' c' where r: "parse_object_schema x d c = (Inl e, d', c')"
    by (metis prod.collapse)
  from parse_object_schema_Inl_state [OF r] r True assms(2) show ?thesis
    by (simp add: validated_get_object_index_def validated_to_object_def)
qed

text \<open>
  Claim C5. Let the declarations before the \<open>k\<close>-th parse successfully, leaving the maps
  \<open>defaults'\<close> and \<open>constructors'\<close>, and let the \<open>k\<close>-th declaration, parsed alone from any
  maps, fail with the error \<open>e\<close>. Then \<^verbatim>\<open>parse_schema\<close> on the whole input throws \<open>e\<close>,
  returns no Schema, and leaves exactly the maps \<open>defaults'\<close> and \<open>constructors'\<close>: they
  hold an entry for every declaration parsed before, nothing is rolled back.
\<close>

theorem parse_schema_no_rollback:
  assumes k: "k < length decls"
    and prefix: "parse_schema (JSArray (take k decls)) defaults constructors =
                   (Inr (Schema ss), defaults', constructors')"
    and bad: "fst (parse_schema (JSArray [decls ! k]) d0 c0) = Inl e"
  shows "parse_schema (JSArray decls) defaults constructors = (Inl e, defaults', constructors')
       \<and> (\<forall>os \<in> set ss. ObjectSchema.name os \<in> dom defaults')
       \<and> defaults \<subseteq>\<^sub>m defaults' \<and> constructors \<subseteq>\<^sub>m constructors'"
proof -
  from k have len: "length (take k decls) = k"
    by simp
  from prefix have "parse_schema_loop (JSArray (take k decls)) [0..<k] [] defaults constructors =
      (Inr ss, defaults', constructors')"
    using k by (auto simp: parse_schema_def min_def split: sum.splits prod.splits)
  moreover have "parse_schema_loop (JSArray (take k decls)) [0..<k] [] defaults constructors =
      parse_schema_loop (JSArray decls) [0..<k] [] defaults constructors"
    using k by (intro parse_schema_loop_cong) simp
  ultimately have pre: "parse_schema_loop (JSArray decls) [0..<k] [] defaults constructors =
      (Inr ss, defaults', constructors')"
    by simp
  from k have idx: "[0..<length decls] = [0..<k] @ k # [Suc k..<length decls]"
    by (metis upt_conv_Cons upt_add_eq_append le0 le_add_diff_inverse less_imp_le_nat)
  from k have "get_property_index (JSArray decls) k = decls ! k"
    by simp
  from parse_schema_loop_fail [OF bad this]
  have "parse_schema_loop (JSArray decls) (k # [Suc k..<length decls]) ss defaults' constructors' =
      (Inl e, defaults', constructors')" .
  with pre have "parse_schema (JSArray decls) defaults constructors =
      (Inl e, defaults', constructors')"
    by (simp add: parse_schema_def idx parse_schema_loop_append)
  moreover from parse_schema_loop_InrD [OF pre]
  have "(\<forall>os \<in> set ss. ObjectSchema.name os \<in> dom defaults')
       \<and> defaults \<subseteq>\<^sub>m defaults' \<and> constructors \<subseteq>\<^sub>m constructors'"
    by auto
  ultimately show ?thesis
    by simp
qed

lemmas parser_defs =
  parse_schema_def parse_object_schema_def parse_properties_def resolve_primary_key_def
  primary_key_property_def parse_property_def read_attributes_def resolve_type_def
  validated_to_object_def validated_get_string_def validated_get_object_def
  validated_get_object_index_def lookup_field_def emplace_def type_error_def

theorem parse_schema_no_rollback_witness:
  "parse_schema
     (JSArray [JSFunction [(''schema'',
                  JSObject [(''name'', JSString ''Dog''),
                            (''properties'',
                               JSObject [(''age'', JSObject [(''type'', JSString ''int''),
                                                             (''default'', Number 1)])])])],
               JSObject [(''name'', JSString ''Cat'')]])
     Map.empty Map.empty =
   (Inl (invalid_argument ''ObjectSchema must have a 'properties' object.''),
    [''Dog'' \<mapsto> [''age'' \<mapsto> Number 1]],
    [''Dog'' \<mapsto> JSFunction [(''schema'',
                  JSObject [(''name'', JSString ''Dog''),
                            (''properties'',
                               JSObject [(''age'', JSObject [(''type'', JSString ''int''),
                                                             (''default'', Number 1)])])])]])"
proof -
  let ?dog = "JSFunction [(''schema'',
                  JSObject [(''name'', JSString ''Dog''),
                            (''properties'',
                               JSObject [(''age'', JSObject [(''type'', JSString ''int''),
                                                             (''default'', Number 1)])])])]"
  let ?cat = "JSObject [(''name'', JSString ''Cat'')]"
  have k: "Suc 0 < length [?dog, ?cat]"
    by simp
  have prefix: "parse_schema (JSArray (take (Suc 0) [?dog, ?cat])) Map.empty Map.empty =
      (Inr (Schema [\<lparr>ObjectSchema.name = ''Dog'',
                      properties = [\<lparr>Property.name = ''age'', type = PropertyTypeInt,
                                      object_type = [], is_primary = False, is_indexed = False,
                                      is_nullable = False\<rparr>],
                      primary_key = []\<rparr>]),
       [''Dog'' \<mapsto> [''age'' \<mapsto> Number 1]], [''Dog'' \<mapsto> ?dog])"
    by (simp add: parser_defs)
  have bad: "fst (parse_schema (JSArray [[?dog, ?cat] ! Suc 0]) Map.empty Map.empty) =
      Inl (invalid_argument ''ObjectSchema must have a 'properties' object.'')"
    by (simp add: parser_defs)
  from parse_schema_no_rollback [OF k prefix bad] show ?thesis
    by simp
qed

section \<open>Properties of \<^verbatim>\<open>parse_object_schema\<close>: property names and the primary key\<close>

lemma field_names_set: "set (field_names fs) = fst ` set fs"
  by (induction fs) auto

lemma field_names_distinct: "distinct (field_names fs)"
  by (induction fs) (auto simp: field_names_set)

lemma field_names_of_distinct: "distinct (map fst fs) \<Longrightarrow> field_names fs = map fst fs"
  by (induction fs) (auto simp: field_names_set filter_id_conv rev_image_eqI)

lemma get_property_names_distinct: "\<not> is_array v \<Longrightarrow> distinct (get_property_names v)"
  by (cases v) (simp_all add: field_names_distinct)

lemma array_properties_loop_InrD:
  "array_properties_loop so xs acc od = (Inr props, od') \<Longrightarrow>
     \<exists>new. props = acc @ new
       \<and> map (\<lambda>p. JSString (Property.name p)) new =
           map (\<lambda>i. get_property (get_property_index so i) ''name'') xs
       \<and> (\<forall>p \<in> set new. \<not> is_primary p)"
proof (induction xs arbitrary: acc od)
  case Nil
  then show ?case by simp
next
  case (Cons i xs)
  from Cons.prems obtain po pn pr od1 where
    po: "validated_get_object_index so i = Inr po" and
    pn: "validated_get_string po ''name'' None = Inr pn" and
    pp: "parse_property po pn od = (Inr pr, od1)" and
    rest: "array_properties_loop so xs (acc @ [pr]) od1 = (Inr props, od')"
    by (auto split: sum.splits prod.splits)
  from Cons.IH [OF rest] obtain new where
    new: "props = (acc @ [pr]) @ new"
      "map (\<lambda>p. JSString (Property.name p)) new =
         map (\<lambda>i. get_property (get_property_index so i) ''name'') xs"
      "\<forall>p \<in> set new. \<not> is_primary p"
    by blast
  from parse_property_InrD [OF pp] have "Property.name pr = pn" "\<not> is_primary pr"
    by auto
  moreover from po pn have "get_property (get_property_index so i) ''name'' = JSString pn"
    by (simp add: validated_get_object_index_Inr validated_get_string_Inr)
  ultimately show ?case
    using new by (intro exI [of _ "pr # new"]) simp
qed

lemma named_properties_loop_InrD:
  "named_properties_loop so ns acc od = (Inr props, od') \<Longrightarrow>
     \<exists>new. props = acc @ new \<and> map Property.name new = ns \<and> (\<forall>p \<in> set new. \<not> is_primary p)"
proof (induction ns arbitrary: acc od)
  case Nil
  then show ?case by simp
next
  case (Cons n ns)
  from Cons.prems obtain pr od1 where
    pp: "parse_property (get_property so n) n od = (Inr pr, od1)" and
    rest: "named_properties_loop so ns (acc @ [pr]) od1 = (Inr props, od')"
    by (auto simp: Let_def split: sum.splits prod.splits)
  from Cons.IH [OF rest] obtain new where
    new: "props = (acc @ [pr]) @ new" "map Property.name new = ns"
      "\<forall>p \<in> set new. \<not> is_primary p"
    by blast
  from parse_property_InrD [OF pp] have "Property.name pr = n" "\<not> is_primary pr"
    by auto
  then show ?case
    using new by (intro exI [of _ "pr # new"]) simp
qed

lemma parse_properties_InrD:
  assumes "parse_properties po = (Inr props, od)"
  shows "(\<forall>p \<in> set props. \<not> is_primary p)
       \<and> (\<not> is_array po \<longrightarrow> map Property.name props = get_property_names po)
       \<and> (\<forall>ds. po = JSArray ds \<longrightarrow>
             map (\<lambda>p. JSString (Property.name p)) props = map (\<lambda>d. get_property d ''name'') ds)"
proof (cases "is_array po")
  case False
  with assms have "named_properties_loop po (get_property_names po) [] Map.empty = (Inr props, od)"
    by (simp add: parse_properties_def)
  from named_properties_loop_InrD [OF this] False show ?thesis
    by auto
next
  case True
  then obtain ds where ds: "po = JSArray ds"
    by (cases po) simp_all
  with assms have "array_properties_loop po [0..<length ds] [] Map.empty = (Inr props, od)"
    by (simp add: parse_properties_def)
  from array_properties_loop_InrD [OF this]
  have "map (\<lambda>p. JSString (Property.name p)) props =
          map (\<lambda>i. get_property (get_property_index po i) ''name'') [0..<length ds]"
    and np: "\<forall>p \<in> set props. \<not> is_primary p"
    by auto
  moreover have "map (\<lambda>i. get_property (get_property_index po i) ''name'') [0..<length ds] =
      map (\<lambda>d. get_property d ''name'') ds"
    by (rule nth_equalityI) (simp_all add: ds)
  ultimately show ?thesis
    using ds by simp
qed

lemma property_for_name_None:
  "property_for_name ps key = None \<longleftrightarrow> key \<notin> Property.name ` set ps"
  by (induction ps) (auto split: option.splits)

lemma property_for_name_Some:
  "property_for_name ps key = Some i \<Longrightarrow> i < length ps \<and> Property.name (ps ! i) = key"
  by (induction ps arbitrary: i) (auto split: option.splits if_splits)

lemma map_update_same: "i < length xs \<Longrightarrow> (map f xs)[i := f (xs ! i)] = map f xs"
  by (simp add: list_update_same_conv)

lemma resolve_primary_key_names:
  "resolve_primary_key dsc os0 = Inr os \<Longrightarrow>
     map Property.name (properties os) = map Property.name (properties os0)"
  by (auto simp: resolve_primary_key_def Let_def primary_key_property_def map_update
        map_update_same dest!: property_for_name_Some split: if_splits sum.splits option.splits)

text \<open>
  Claim C6 as stated fails for the ordered-list shape: two descriptors of the same name are
  both stored, in order; no line of \<^verbatim>\<open>parse_object_schema\<close> compares names.
\<close>

theorem parse_object_schema_duplicate_names:
  "fst (parse_object_schema
     (JSObject [(''name'', JSString ''Dog''),
                (''properties'',
                   JSArray [JSObject [(''name'', JSString ''a''), (''type'', JSString ''int'')],
                            JSObject [(''name'', JSString ''a''), (''type'', JSString ''string'')]])])
     Map.empty Map.empty) =
   Inr \<lparr>ObjectSchema.name = ''Dog'',
        properties =
          [\<lparr>Property.name = ''a'', type = PropertyTypeInt, object_type = [],
             is_primary = False, is_indexed = False, is_nullable = False\<rparr>,
           \<lparr>Property.name = ''a'', type = PropertyTypeString, object_type = [],
             is_primary = False, is_indexed = False, is_nullable = False\<rparr>],
        primary_key = []\<rparr>
   \<and> \<not> distinct [''a'', ''a'']"
  by (simp add: parser_defs)

text \<open>
  Claim C6, as amended. For the name-keyed shape the stored names are the keys of the
  properties object in iteration order, hence pairwise unique, as the keys of an object
  are. For the ordered-list shape the stored names are the \<^verbatim>\<open>name\<close> fields of the
  descriptors in order; they are unique exactly when those fields are, and the parser does
  not check it.
\<close>

theorem parse_object_schema_property_names:
  assumes ok: "parse_object_schema decl d c = (Inr os, d', c')"
  shows "(\<not> is_array (get_property (schema_descriptor decl) ''properties'') \<longrightarrow>
            map Property.name (properties os) =
              get_property_names (get_property (schema_descriptor decl) ''properties'')
          \<and> distinct (map Property.name (properties os)))
       \<and> (\<forall>ds. get_property (schema_descriptor decl) ''properties'' = JSArray ds \<longrightarrow>
            map (\<lambda>p. JSString (Property.name p)) (properties os) =
              map (\<lambda>d. get_property d ''name'') ds
          \<and> (distinct (map Property.name (properties os)) \<longleftrightarrow>
               distinct (map (\<lambda>d. get_property d ''name'') ds)))"
proof -
  let ?po = "get_property (schema_descriptor decl) ''properties''"
  from parse_object_schema_InrD [OF ok] obtain nm props od where
    pp: "parse_properties ?po = (Inr props, od)" and
    pk: "resolve_primary_key (schema_descriptor decl)
           \<lparr>name = nm, properties = props, primary_key = []\<rparr> = Inr os"
    by blast
  from resolve_primary_key_names [OF pk]
  have names: "map Property.name (properties os) = map Property.name props"
    by simp
  have keyed: "map Property.name (properties os) = get_property_names ?po
      \<and> distinct (map Property.name (properties os))" if "\<not> is_array ?po"
    using parse_properties_InrD [OF pp] that names
    by (simp add: get_property_names_distinct)
  have listed: "map (\<lambda>p. JSString (Property.name p)) (properties os) =
        map (\<lambda>d. get_property d ''name'') ds
      \<and> (distinct (map Property.name (properties os)) \<longleftrightarrow>
           distinct (map (\<lambda>d. get_property d ''name'') ds))" if arr: "?po = JSArray ds" for ds
  proof -
    from parse_properties_InrD [OF pp] arr
    have "map (\<lambda>p. JSString (Property.name p)) props = map (\<lambda>d. get_property d ''name'') ds"
      by simp
    moreover have "map (\<lambda>p. JSString (Property.name p)) props =
        map JSString (map Property.name props)"
      by simp
    ultimately have eq: "map JSString (map Property.name (properties os)) =
        map (\<lambda>d. get_property d ''name'') ds"
      using names by simp
    have "distinct (map JSString (map Property.name (properties os))) \<longleftrightarrow>
        distinct (map Property.name (properties os))"
      by (simp add: distinct_map inj_on_def)
    with eq show ?thesis
      by (simp add: comp_def)
  qed
  from keyed listed show ?thesis
    by blast
qed

theorem parse_object_schema_property_names_witness:
  "\<exists>os d' c'.
     parse_object_schema
       (JSObject [(''name'', JSString ''Dog''),
                  (''properties'', JSObject [(''age'', JSString ''int''),
                                             (''owner'', JSString ''Person'')])])
       Map.empty Map.empty = (Inr os, d', c')
     \<and> map Property.name (properties os) = [''age'', ''owner'']
     \<and> distinct (map Property.name (properties os))"
proof -
  let ?decl = "JSObject [(''name'', JSString ''Dog''),
                (''properties'', JSObject [(''age'', JSString ''int''),
                                           (''owner'', JSString ''Person'')])]"
  let ?os = "\<lparr>ObjectSchema.name = ''Dog'',
       properties =
         [\<lparr>Property.name = ''age'', type = PropertyTypeInt, object_type = [],
            is_primary = False, is_indexed = False, is_nullable = False\<rparr>,
          \<lparr>Property.name = ''owner'', type = PropertyTypeObject, object_type = ''Person'',
            is_primary = False, is_indexed = False, is_nullable = True\<rparr>],
       primary_key = []\<rparr>"
  have ok: "parse_object_schema ?decl Map.empty Map.empty =
     (Inr ?os, [''Dog'' \<mapsto> Map.empty], Map.empty)"
    by (simp add: parser_defs)
  have keyed: "\<not> is_array (get_property (schema_descriptor ?decl) ''properties'')"
    "get_property_names (get_property (schema_descriptor ?decl) ''properties'') =
       [''age'', ''owner'']"
    by (simp_all add: schema_descriptor_def lookup_field_def)
  from parse_object_schema_property_names [OF ok] keyed
  have names: "map Property.name (properties ?os) = [''age'', ''owner'']"
    and dist: "distinct (map Property.name (properties ?os))"
    by simp_all
  show ?thesis
    by (intro exI [of _ ?os] exI [of _ "[''Dog'' \<mapsto> Map.empty]"] exI [of _ Map.empty]
          conjI ok names dist)
qed

text \<open>
  Claim C2. Take a declaration whose name is a string, whose properties parse to the list
  \<open>props\<close>, and whose \<^verbatim>\<open>primaryKey\<close> field is the string \<open>pk\<close>. If no property is named
  \<open>pk\<close>, \<^verbatim>\<open>parse_object_schema\<close> throws the runtime error
  \<^verbatim>\<open>Missing primary key property '<pk>'\<close>. Otherwise it returns an ObjectSchema whose
  \<^verbatim>\<open>primary_key\<close> is \<open>pk\<close> and whose properties are \<open>props\<close> with \<^verbatim>\<open>is_primary\<close> set
  on one property named \<open>pk\<close>; that property is the only one with \<^verbatim>\<open>is_primary\<close> set.
\<close>

theorem parse_object_schema_primary_key:
  assumes ctor: "is_constructor decl \<longrightarrow> is_object (schema_descriptor decl)"
    and nm: "get_property (schema_descriptor decl) ''name'' = JSString nm"
    and po: "is_object (get_property (schema_descriptor decl) ''properties'')"
    and pp: "parse_properties (get_property (schema_descriptor decl) ''properties'') =
               (Inr props, od)"
    and pk: "get_property (schema_descriptor decl) ''primaryKey'' = JSString pk"
  shows "(pk \<notin> Property.name ` set props \<longrightarrow>
            parse_object_schema decl d c =
              (Inl (runtime_error
                     (''Missing primary key property '' @ [CHR 0x27] @ pk @ [CHR 0x27])), d, c))
       \<and> (pk \<in> Property.name ` set props \<longrightarrow>
            (\<exists>os d' c' i. parse_object_schema decl d c = (Inr os, d', c')
               \<and> primary_key os = pk
               \<and> i < length props \<and> Property.name (props ! i) = pk
               \<and> properties os = props[i := (props ! i)\<lparr>is_primary := True\<rparr>]
               \<and> (\<forall>j < length props. is_primary (properties os ! j) \<longleftrightarrow> j = i)))"
proof -
  let ?dsc = "schema_descriptor decl"
  let ?start = "\<lparr>ObjectSchema.name = nm, properties = props, primary_key = []\<rparr>"
  have head: "(if is_constructor decl
               then validated_get_object decl ''schema''
                      (Some ''Realm object constructor must have a 'schema' property.'')
               else Inr decl) = Inr ?dsc"
    using ctor by (auto simp: schema_descriptor_def validated_get_object_def validated_to_object_def)
  have name: "validated_get_string ?dsc ''name'' None = Inr nm"
    using nm by (simp add: validated_get_string_def)
  have pobj: "validated_get_object ?dsc ''properties''
                 (Some ''ObjectSchema must have a 'properties' object.'') =
              Inr (get_property ?dsc ''properties'')"
    using po by (simp add: validated_get_object_def validated_to_object_def)
  have run: "parse_object_schema decl d c =
      (case resolve_primary_key ?dsc ?start of
         Inl e \<Rightarrow> (Inl e, d, c)
       | Inr os \<Rightarrow>
           (Inr os, emplace d (ObjectSchema.name os) od,
            (if is_constructor decl then emplace c (ObjectSchema.name os) decl else c)))"
    by (simp add: parse_object_schema_def head name pobj pp Let_def split: sum.splits)
  have missing: "parse_object_schema decl d c =
      (Inl (runtime_error (''Missing primary key property '' @ [CHR 0x27] @ pk @ [CHR 0x27])), d, c)"
    if "pk \<notin> Property.name ` set props"
  proof -
    from that have "property_for_name props pk = None"
      by (simp add: property_for_name_None)
    then have "resolve_primary_key ?dsc ?start =
        Inl (runtime_error (''Missing primary key property '' @ [CHR 0x27] @ pk @ [CHR 0x27]))"
      using pk by (simp add: resolve_primary_key_def primary_key_property_def)
    with run show ?thesis
      by simp
  qed
  have found: "\<exists>os d' c' i. parse_object_schema decl d c = (Inr os, d', c')
               \<and> primary_key os = pk
               \<and> i < length props \<and> Property.name (props ! i) = pk
               \<and> properties os = props[i := (props ! i)\<lparr>is_primary := True\<rparr>]
               \<and> (\<forall>j < length props. is_primary (properties os ! j) \<longleftrightarrow> j = i)"
    if "pk \<in> Property.name ` set props"
  proof -
    from that obtain i where i: "property_for_name props pk = Some i"
      using property_for_name_None [of props pk] by (cases "property_for_name props pk") auto
    from property_for_name_Some [OF i] have ib: "i < length props" "Property.name (props ! i) = pk"
      by simp_all
    let ?os = "\<lparr>ObjectSchema.name = nm,
                properties = props[i := (props ! i)\<lparr>is_primary := True\<rparr>], primary_key = pk\<rparr>"
    from i pk have "resolve_primary_key ?dsc ?start = Inr ?os"
      by (simp add: resolve_primary_key_def primary_key_property_def)
    with run have r: "parse_object_schema decl d c =
        (Inr ?os, emplace d nm od, (if is_constructor decl then emplace c nm decl else c))"
      by simp
    from parse_properties_InrD [OF pp] have np: "\<forall>p \<in> set props. \<not> is_primary p"
      by simp
    have "\<forall>j < length props. is_primary (properties ?os ! j) \<longleftrightarrow> j = i"
      using np ib(1) by (auto simp: nth_list_update)
    with r ib show ?thesis
      by (intro exI [of _ ?os] exI [of _ "emplace d nm od"]
            exI [of _ "if is_constructor decl then emplace c nm decl else c"] exI [of _ i]) simp
  qed
  from missing found show ?thesis
    by blast
qed

theorem parse_object_schema_primary_key_witness:
  "parse_object_schema
     (JSObject [(''name'', JSString ''Dog''),
                (''properties'', JSObject [(''age'', JSString ''int'')]),
                (''primaryKey'', JSString ''id'')])
     Map.empty Map.empty =
   (Inl (runtime_error (''Missing primary key property '' @ [CHR 0x27] @ ''id'' @ [CHR 0x27])),
    Map.empty, Map.empty)
   \<and> (\<exists>os d' c'.
        parse_object_schema
          (JSObject [(''name'', JSString ''Dog''),
                     (''properties'', JSObject [(''age'', JSString ''int''),
                                                (''id'', JSString ''string'')]),
                     (''primaryKey'', JSString ''id'')])
          Map.empty Map.empty = (Inr os, d', c')
        \<and> primary_key os = ''id''
        \<and> map is_primary (properties os) = [False, True])"
proof -
  let ?d1 = "JSObject [(''name'', JSString ''Dog''),
                (''properties'', JSObject [(''age'', JSString ''int'')]),
                (''primaryKey'', JSString ''id'')]"
  let ?d2 = "JSObject [(''name'', JSString ''Dog''),
                     (''properties'', JSObject [(''age'', JSString ''int''),
                                                (''id'', JSString ''string'')]),
                     (''primaryKey'', JSString ''id'')]"
  let ?age = "\<lparr>Property.name = ''age'', type = PropertyTypeInt, object_type = [],
                is_primary = False, is_indexed = False, is_nullable = False\<rparr>"
  let ?id = "\<lparr>Property.name = ''id'', type = PropertyTypeString, object_type = [],
                is_primary = False, is_indexed = False, is_nullable = False\<rparr>"
  have pp1: "parse_properties (get_property (schema_descriptor ?d1) ''properties'') =
      (Inr [?age], Map.empty)"
    by (simp add: schema_descriptor_def parser_defs)
  have pp2: "parse_properties (get_property (schema_descriptor ?d2) ''properties'') =
      (Inr [?age, ?id], Map.empty)"
    by (simp add: schema_descriptor_def parser_defs)
  from parse_object_schema_primary_key
    [where decl = ?d1 and nm = "''Dog''" and pk = "''id''" and d = Map.empty and c = Map.empty,
     OF _ _ _ pp1]
  have a: "parse_object_schema ?d1 Map.empty Map.empty =
     (Inl (runtime_error (''Missing primary key property '' @ [CHR 0x27] @ ''id'' @ [CHR 0x27])),
      Map.empty, Map.empty)"
    by (simp add: schema_descriptor_def lookup_field_def)
  have c2: "is_constructor ?d2 \<longrightarrow> is_object (schema_descriptor ?d2)"
    by simp
  have n2: "get_property (schema_descriptor ?d2) ''name'' = JSString ''Dog''"
    by (simp add: schema_descriptor_def lookup_field_def)
  have o2: "is_object (get_property (schema_descriptor ?d2) ''properties'')"
    by (simp add: schema_descriptor_def lookup_field_def)
  have k2: "get_property (schema_descriptor ?d2) ''primaryKey'' = JSString ''id''"
    by (simp add: schema_descriptor_def lookup_field_def)
  have mem: "''id'' \<in> Property.name ` set [?age, ?id]"
    by simp
  from parse_object_schema_primary_key [OF c2 n2 o2 pp2 k2, of Map.empty Map.empty] mem
  obtain os d' c' i where
    r: "parse_object_schema ?d2 Map.empty Map.empty = (Inr os, d', c')" "primary_key os = ''id''"
      "i < length [?age, ?id]" "Property.name ([?age, ?id] ! i) = ''id''"
      "properties os = [?age, ?id][i := ([?age, ?id] ! i)\<lparr>is_primary := True\<rparr>]"
    by blast
  from r(3,4) have "i = 1"
    by (cases i) auto
  with r(5) have flags: "map is_primary (properties os) = [False, True]"
    by simp
  show ?thesis
    by (intro conjI exI [of _ os] exI [of _ d'] exI [of _ c'] a r(1) r(2) flags)
qed

section \<open>Properties of \<^verbatim>\<open>parse_object_schema\<close>: the two shapes of the property collection\<close>

lemma read_attributes_fields:
  assumes "is_object a" "is_object b"
    and "get_property a ''type'' = get_property b ''type''"
    and "get_property a ''optional'' = get_property b ''optional''"
  shows "(\<exists>e. read_attributes a = Inl e \<and> read_attributes b = Inl e) \<or>
         (\<exists>t n. read_attributes a = Inr (Some a, t, n) \<and> read_attributes b = Inr (Some b, t, n))"
  using assms
  by (cases "get_property b ''type''"; cases "get_property b ''optional''")
     (auto simp: read_attributes_def validated_to_object_def validated_get_string_def)

lemma resolve_type_fields:
  "get_property a ''objectType'' = get_property b ''objectType'' \<Longrightarrow>
   resolve_type (Some a) t n = resolve_type (Some b) t n"
  by (simp add: resolve_type_def validated_get_string_def)

lemma parse_property_fields:
  assumes obj: "is_object a" "is_object b"
    and ty: "get_property a ''type'' = get_property b ''type''"
    and opt: "get_property a ''optional'' = get_property b ''optional''"
    and ot: "get_property a ''objectType'' = get_property b ''objectType''"
    and df: "get_property a ''default'' = get_property b ''default''"
    and ix: "get_property a ''indexed'' = get_property b ''indexed''"
  shows "parse_property a n od = parse_property b n od"
proof -
  from read_attributes_fields [OF obj ty opt] show ?thesis
  proof (elim disjE exE conjE)
    fix e
    assume "read_attributes a = Inl e" "read_attributes b = Inl e"
    then show ?thesis
      by (simp add: parse_property_def)
  next
    fix t nl
    assume ra: "read_attributes a = Inr (Some a, t, nl)" "read_attributes b = Inr (Some b, t, nl)"
    show ?thesis
    proof (cases "resolve_type (Some b) t nl")
      case (Inl e)
      with ra resolve_type_fields [OF ot, of t nl] show ?thesis
        by (simp add: parse_property_def)
    next
      case (Inr r)
      obtain pt ot' nl' where r: "r = (pt, ot', nl')"
        by (cases r)
      from ra resolve_type_fields [OF ot, of t nl] Inr show ?thesis
        by (simp add: parse_property_def r df ix)
    qed
  qed
qed

lemma parse_property_ignores_name:
  "parse_property (JSObject ((''name'', v) # fs)) n od = parse_property (JSObject fs) n od"
  by (rule parse_property_fields) (simp_all add: lookup_field_def)

lemma lookup_keyed:
  "distinct (map fst (pre @ (n, fs) # post)) \<Longrightarrow>
   lookup_field (map (\<lambda>(n, fs). (n, JSObject fs)) (pre @ (n, fs) # post)) n = JSObject fs"
  by (induction pre) (auto simp: lookup_field_def)

lemma loops_agree:
  "distinct (map fst (pre @ decls)) \<Longrightarrow>
   array_properties_loop (list_shape (pre @ decls)) [length pre..<length pre + length decls] acc od =
   named_properties_loop (keyed_shape (pre @ decls)) (map fst decls) acc od"
proof (induction decls arbitrary: pre acc od)
  case Nil
  then show ?case by simp
next
  case (Cons x xs)
  obtain n fs where x: "x = (n, fs)"
    by (cases x)
  let ?l = "list_shape (pre @ (n, fs) # xs)"
  let ?k = "keyed_shape (pre @ (n, fs) # xs)"
  let ?rest = "[length (pre @ [(n, fs)])..<length (pre @ [(n, fs)]) + length xs]"
  have idx: "[length pre..<length pre + length ((n, fs) # xs)] = length pre # ?rest"
    by (subst upt_rec) simp
  have elem: "get_property_index ?l (length pre) = JSObject ((''name'', JSString n) # fs)"
    by (simp add: list_shape_def nth_append)
  have val: "get_property ?k n = JSObject fs"
    using Cons.prems lookup_keyed [of pre n fs xs] by (simp add: keyed_shape_def x)
  from Cons.prems have "distinct (map fst ((pre @ [(n, fs)]) @ xs))"
    by (simp add: x)
  from Cons.IH [OF this]
  have ih: "array_properties_loop ?l ?rest acc' od' =
            named_properties_loop ?k (map fst xs) acc' od'" for acc' od'
    by simp
  have left: "array_properties_loop ?l (length pre # ?rest) acc od =
      (case parse_property (JSObject fs) n od of
         (Inl e, od') \<Rightarrow> (Inl e, od')
       | (Inr pr, od') \<Rightarrow> array_properties_loop ?l ?rest (acc @ [pr]) od')"
    by (simp only: array_properties_loop.simps elem)
       (simp add: validated_get_object_index_def validated_to_object_def
          validated_get_string_def lookup_field_def parse_property_ignores_name elem)
  have right: "named_properties_loop ?k (n # map fst xs) acc od =
      (case parse_property (JSObject fs) n od of
         (Inl e, od') \<Rightarrow> (Inl e, od')
       | (Inr pr, od') \<Rightarrow> named_properties_loop ?k (map fst xs) (acc @ [pr]) od')"
    by (simp only: named_properties_loop.simps Let_def val)
  have "array_properties_loop ?l (length pre # ?rest) acc od =
        named_properties_loop ?k (n # map fst xs) acc od"
    unfolding left right ih
    by (rule refl)
  then show ?case
    unfolding x idx by simp
qed

lemma parse_properties_shapes:
  assumes "distinct (map fst decls)"
  shows "parse_properties (list_shape decls) = parse_properties (keyed_shape decls)"
proof -
  have "get_property_names (keyed_shape decls) = map fst decls"
    using assms
    by (simp add: keyed_shape_def field_names_of_distinct comp_def case_prod_unfold)
  moreover have "is_array (list_shape decls)" "\<not> is_array (keyed_shape decls)"
    "validated_get_length (list_shape decls) = Inr (length decls)"
    by (simp_all add: list_shape_def keyed_shape_def)
  ultimately show ?thesis
    using loops_agree [of "[]" decls "[]" Map.empty] assms
    by (simp add: parse_properties_def)
qed

lemma resolve_primary_key_cong:
  "get_property dsc ''primaryKey'' = get_property dsc' ''primaryKey'' \<Longrightarrow>
   resolve_primary_key dsc os = resolve_primary_key dsc' os"
  by (simp add: resolve_primary_key_def)

lemma parse_object_schema_fields:
  assumes nc: "\<not> is_constructor a" "\<not> is_constructor b"
    and nm: "get_property a ''name'' = get_property b ''name''"
    and pk: "get_property a ''primaryKey'' = get_property b ''primaryKey''"
    and ob: "is_object (get_property a ''properties'')" "is_object (get_property b ''properties'')"
    and pp: "parse_properties (get_property a ''properties'') =
             parse_properties (get_property b ''properties'')"
  shows "parse_object_schema a d c = parse_object_schema b d c"
proof -
  have rk: "resolve_primary_key a os = resolve_primary_key b os" for os
    by (rule resolve_primary_key_cong) (rule pk)
  have oa: "validated_get_object a ''properties'' m = Inr (get_property a ''properties'')"
    and ob': "validated_get_object b ''properties'' m = Inr (get_property b ''properties'')" for m
    using ob by (simp_all add: validated_get_object_def validated_to_object_def)
  show ?thesis
  proof (cases "validated_get_string b ''name'' None")
    case (Inl e)
    with nc nm show ?thesis
      by (simp add: parse_object_schema_def validated_get_string_def)
  next
    case (Inr s)
    with nc nm have "validated_get_string a ''name'' None = Inr s"
      by (simp add: validated_get_string_def)
    with Inr nc show ?thesis
      by (simp add: parse_object_schema_def oa ob' pp rk split: prod.splits sum.splits)
  qed
qed

text \<open>
  Claim C7. Let the same declarations, of pairwise different names, be supplied once as an
  ordered list of descriptors carrying their names and once as the name-keyed object with
  the same iteration order, inside otherwise equal type declarations. Then
  \<^verbatim>\<open>parse_object_schema\<close> gives the same outcome for both: the same ObjectSchema with the
  same \<^verbatim>\<open>properties\<close> sequence and the same output maps, or the same error. Whenever it
  returns, the stored order of the property names is the order of the declarations.
\<close>

theorem parse_object_schema_list_vs_keyed:
  assumes dist: "distinct (map fst decls)"
  shows "parse_object_schema (JSObject ((''properties'', list_shape decls) # rest)) d c =
         parse_object_schema (JSObject ((''properties'', keyed_shape decls) # rest)) d c
       \<and> (\<forall>os d' c'.
            parse_object_schema (JSObject ((''properties'', list_shape decls) # rest)) d c =
              (Inr os, d', c') \<longrightarrow>
            map Property.name (properties os) = map fst decls)"
proof -
  let ?l = "JSObject ((''properties'', list_shape decls) # rest)"
  let ?k = "JSObject ((''properties'', keyed_shape decls) # rest)"
  have pk: "resolve_primary_key ?l os = resolve_primary_key ?k os" for os
    by (rule resolve_primary_key_cong) (simp add: lookup_field_def)
  have obj: "is_object (list_shape decls)" "is_object (keyed_shape decls)"
    by (simp_all add: list_shape_def keyed_shape_def)
  have eq: "parse_object_schema ?l d c = parse_object_schema ?k d c"
    by (rule parse_object_schema_fields)
       (simp_all add: lookup_field_def obj parse_properties_shapes [OF dist])
  have order: "map Property.name (properties os) = map fst decls"
    if "parse_object_schema ?l d c = (Inr os, d', c')" for os d' c'
  proof -
    from that eq have ok: "parse_object_schema ?k d c = (Inr os, d', c')"
      by simp
    have "get_property (schema_descriptor ?k) ''properties'' = keyed_shape decls"
      by (simp add: schema_descriptor_def lookup_field_def)
    moreover have "get_property_names (keyed_shape decls) = map fst decls"
      using dist
      by (simp add: keyed_shape_def field_names_of_distinct comp_def case_prod_unfold)
    moreover have "\<not> is_array (keyed_shape decls)"
      by (simp add: keyed_shape_def)
    moreover from parse_object_schema_InrD [OF ok] obtain nm props od where
      pp: "parse_properties (get_property (schema_descriptor ?k) ''properties'') = (Inr props, od)" and
      rk: "resolve_primary_key (schema_descriptor ?k)
           \<lparr>name = nm, properties = props, primary_key = []\<rparr> = Inr os"
      by blast
    ultimately show ?thesis
      using parse_properties_InrD [OF pp] resolve_primary_key_names [OF rk]
      by simp
  qed
  from eq order show ?thesis
    by blast
qed

theorem parse_object_schema_list_vs_keyed_witness:
  "parse_object_schema
     (JSObject [(''properties'',
                   list_shape [(''age'', [(''type'', JSString ''int'')]),
                               (''owner'', [(''type'', JSString ''Person'')])]),
                (''name'', JSString ''Dog'')]) Map.empty Map.empty =
   parse_object_schema
     (JSObject [(''properties'',
                   keyed_shape [(''age'', [(''type'', JSString ''int'')]),
                                (''owner'', [(''type'', JSString ''Person'')])]),
                (''name'', JSString ''Dog'')]) Map.empty Map.empty
   \<and> (\<exists>os d' c'.
        parse_object_schema
          (JSObject [(''properties'',
                        list_shape [(''age'', [(''type'', JSString ''int'')]),
                                    (''owner'', [(''type'', JSString ''Person'')])]),
                     (''name'', JSString ''Dog'')]) Map.empty Map.empty = (Inr os, d', c')
        \<and> map Property.name (properties os) = [''age'', ''owner''])"
proof -
  let ?decls = "[(''age'', [(''type'', JSString ''int'')]),
                 (''owner'', [(''type'', JSString ''Person'')])]"
  let ?l = "JSObject [(''properties'', list_shape ?decls), (''name'', JSString ''Dog'')]"
  let ?os = "\<lparr>ObjectSchema.name = ''Dog'',
       properties =
         [\<lparr>Property.name = ''age'', type = PropertyTypeInt, object_type = [],
            is_primary = False, is_indexed = False, is_nullable = False\<rparr>,
          \<lparr>Property.name = ''owner'', type = PropertyTypeObject, object_type = ''Person'',
            is_primary = False, is_indexed = False, is_nullable = True\<rparr>],
       primary_key = []\<rparr>"
  have dist: "distinct (map fst ?decls)"
    by simp
  have ok: "parse_object_schema ?l Map.empty Map.empty =
      (Inr ?os, [''Dog'' \<mapsto> Map.empty], Map.empty)"
    by (simp add: list_shape_def parser_defs)
  from parse_object_schema_list_vs_keyed
         [OF dist, of "[(''name'', JSString ''Dog'')]" Map.empty Map.empty]
  have eq: "parse_object_schema ?l Map.empty Map.empty =
      parse_object_schema
        (JSObject [(''properties'', keyed_shape ?decls), (''name'', JSString ''Dog'')])
        Map.empty Map.empty"
    and names: "map Property.name (properties ?os) = map fst ?decls"
    using ok by blast+
  from names have names': "map Property.name (properties ?os) = [''age'', ''owner'']"
    by simp
  show ?thesis
    by (intro conjI exI [of _ ?os] exI [of _ "[''Dog'' \<mapsto> Map.empty]"]
          exI [of _ Map.empty] eq ok names')
qed

section \<open>Properties of \<^verbatim>\<open>dict_for_property_array\<close>\<close>

lemma lookup_set_field:
  "lookup_field (set_field fs k v) k' = (if k' = k then v else lookup_field fs k')"
  by (induction fs) (auto simp: lookup_field_def)

lemma set_field_keys: "fst ` set (set_field fs k v) = insert k (fst ` set fs)"
  by (induction fs) auto

lemma dict_loop_append:
  "dict_loop props array (xs @ ys) dict = dict_loop props array ys (dict_loop props array xs dict)"
  by (induction xs arbitrary: dict) (simp_all add: Let_def)

lemma dict_loop_upto:
  "n \<le> length props \<Longrightarrow>
   \<exists>fs. dict_loop props array [0..<n] create_empty = JSObject fs
      \<and> fst ` set fs = Property.name ` set (take n props)
      \<and> (\<forall>i<n. (\<forall>j. i < j \<and> j < n \<longrightarrow> Property.name (props ! j) \<noteq> Property.name (props ! i)) \<longrightarrow>
             lookup_field fs (Property.name (props ! i)) = get_property_index array i)"
proof (induction n)
  case 0
  then show ?case
    by (simp add: create_empty_def)
next
  case (Suc n)
  then obtain fs where
    fs: "dict_loop props array [0..<n] create_empty = JSObject fs"
      "fst ` set fs = Property.name ` set (take n props)"
      "\<forall>i<n. (\<forall>j. i < j \<and> j < n \<longrightarrow> Property.name (props ! j) \<noteq> Property.name (props ! i)) \<longrightarrow>
             lookup_field fs (Property.name (props ! i)) = get_property_index array i"
    by auto
  let ?fs = "set_field fs (Property.name (props ! n)) (get_property_index array n)"
  have run: "dict_loop props array [0..<Suc n] create_empty = JSObject ?fs"
    by (simp add: dict_loop_append fs(1) Let_def)
  from Suc.prems have keys: "fst ` set ?fs = Property.name ` set (take (Suc n) props)"
    by (simp add: set_field_keys fs(2) take_Suc_conv_app_nth)
  have vals: "lookup_field ?fs (Property.name (props ! i)) = get_property_index array i"
    if i: "i < Suc n"
      and last: "\<forall>j. i < j \<and> j < Suc n \<longrightarrow> Property.name (props ! j) \<noteq> Property.name (props ! i)"
    for i
  proof (cases "i = n")
    case True
    then show ?thesis
      by (simp add: lookup_set_field)
  next
    case False
    with i have lt: "i < n"
      by simp
    with last have "Property.name (props ! n) \<noteq> Property.name (props ! i)"
      by simp
    moreover from last have "\<forall>j. i < j \<and> j < n \<longrightarrow> Property.name (props ! j) \<noteq> Property.name (props ! i)"
      by simp
    with fs(3) lt have "lookup_field fs (Property.name (props ! i)) = get_property_index array i"
      by simp
    ultimately show ?thesis
      by (simp add: lookup_set_field)
  qed
  from run keys vals show ?case
    by blast
qed

text \<open>
  Claim C3 as stated fails for an ObjectSchema in which a property name occurs twice (the
  parser returns such schemas for the ordered-list shape): the second
  \<^verbatim>\<open>set_property\<close> overwrites the first, so the name of property 0 is mapped to
  element 1 of the array.
\<close>

theorem dict_for_property_array_last_wins:
  "dict_for_property_array
     \<lparr>ObjectSchema.name = ''Dog'',
      properties =
        [\<lparr>Property.name = ''a'', type = PropertyTypeInt, object_type = [],
           is_primary = False, is_indexed = False, is_nullable = False\<rparr>,
         \<lparr>Property.name = ''a'', type = PropertyTypeString, object_type = [],
           is_primary = False, is_indexed = False, is_nullable = False\<rparr>],
      primary_key = []\<rparr>
     (JSArray [Number 1, JSString ''x'']) = Inr (JSObject [(''a'', JSString ''x'')])
   \<and> get_property (JSObject [(''a'', JSString ''x'')]) ''a'' \<noteq>
       get_property_index (JSArray [Number 1, JSString ''x'']) 0"
  by (simp add: dict_for_property_array_def create_empty_def lookup_field_def Let_def)

text \<open>
  Claim C3, as amended. When the array has a length that differs from the number of
  properties, \<^verbatim>\<open>dict_for_property_array\<close> throws
  \<^verbatim>\<open>Array must contain values for all object properties\<close>. When the lengths match it
  returns a fresh object whose keys are exactly the property names and in which the name of
  the \<open>i\<close>-th property is mapped to the \<open>i\<close>-th array element for every \<open>i\<close> whose name
  does not occur again at a later index; so for every \<open>i\<close> when the property names are
  pairwise different.
\<close>

theorem dict_for_property_array_pairs:
  "(\<forall>n. validated_get_length array = Inr n \<and> n \<noteq> length (properties os) \<longrightarrow>
       dict_for_property_array os array =
         Inl (runtime_error ''Array must contain values for all object properties''))
   \<and> (validated_get_length array = Inr (length (properties os)) \<longrightarrow>
       (\<exists>fs. dict_for_property_array os array = Inr (JSObject fs)
          \<and> set (get_property_names (JSObject fs)) = Property.name ` set (properties os)
          \<and> (\<forall>i < length (properties os).
                (\<forall>j. i < j \<and> j < length (properties os) \<longrightarrow>
                     Property.name (properties os ! j) \<noteq> Property.name (properties os ! i)) \<longrightarrow>
                get_property (JSObject fs) (Property.name (properties os ! i)) =
                  get_property_index array i)
          \<and> (distinct (map Property.name (properties os)) \<longrightarrow>
               (\<forall>i < length (properties os).
                  get_property (JSObject fs) (Property.name (properties os ! i)) =
                    get_property_index array i))))"
proof -
  let ?ps = "properties os"
  have bad: "dict_for_property_array os array =
         Inl (runtime_error ''Array must contain values for all object properties'')"
    if "validated_get_length array = Inr n \<and> n \<noteq> length ?ps" for n
    using that by (auto simp: dict_for_property_array_def Let_def)
  have good: "\<exists>fs. dict_for_property_array os array = Inr (JSObject fs)
          \<and> set (get_property_names (JSObject fs)) = Property.name ` set ?ps
          \<and> (\<forall>i < length ?ps.
                (\<forall>j. i < j \<and> j < length ?ps \<longrightarrow>
                     Property.name (?ps ! j) \<noteq> Property.name (?ps ! i)) \<longrightarrow>
                get_property (JSObject fs) (Property.name (?ps ! i)) = get_property_index array i)
          \<and> (distinct (map Property.name ?ps) \<longrightarrow>
               (\<forall>i < length ?ps.
                  get_property (JSObject fs) (Property.name (?ps ! i)) =
                    get_property_index array i))"
    if len: "validated_get_length array = Inr (length ?ps)"
  proof -
    from dict_loop_upto [of "length ?ps" ?ps array] obtain fs where
      fs: "dict_loop ?ps array [0..<length ?ps] create_empty = JSObject fs"
        "fst ` set fs = Property.name ` set ?ps"
        "\<forall>i<length ?ps. (\<forall>j. i < j \<and> j < length ?ps \<longrightarrow>
             Property.name (?ps ! j) \<noteq> Property.name (?ps ! i)) \<longrightarrow>
             lookup_field fs (Property.name (?ps ! i)) = get_property_index array i"
      by auto
    from len fs(1) have r: "dict_for_property_array os array = Inr (JSObject fs)"
      by (simp add: dict_for_property_array_def Let_def)
    have d: "\<forall>i < length ?ps.
                  get_property (JSObject fs) (Property.name (?ps ! i)) = get_property_index array i"
      if "distinct (map Property.name ?ps)"
    proof (intro allI impI)
      fix i
      assume i: "i < length ?ps"
      have "\<forall>j. i < j \<and> j < length ?ps \<longrightarrow> Property.name (?ps ! j) \<noteq> Property.name (?ps ! i)"
        using that i by (auto simp: distinct_conv_nth)
      with fs(3) i show "get_property (JSObject fs) (Property.name (?ps ! i)) =
          get_property_index array i"
        by simp
    qed
    from r fs(2,3) d show ?thesis
      by (intro exI [of _ fs]) (simp add: field_names_set)
  qed
  from bad good show ?thesis
    by blast
qed

theorem dict_for_property_array_pairs_witness:
  "dict_for_property_array
     \<lparr>ObjectSchema.name = ''Dog'',
      properties =
        [\<lparr>Property.name = ''age'', type = PropertyTypeInt, object_type = [],
           is_primary = False, is_indexed = False, is_nullable = False\<rparr>,
         \<lparr>Property.name = ''name'', type = PropertyTypeString, object_type = [],
           is_primary = False, is_indexed = False, is_nullable = False\<rparr>],
      primary_key = []\<rparr>
     (JSArray [Number 3]) =
     Inl (runtime_error ''Array must contain values for all object properties'')
   \<and> (\<exists>fs. dict_for_property_array
        \<lparr>ObjectSchema.name = ''Dog'',
         properties =
           [\<lparr>Property.name = ''age'', type = PropertyTypeInt, object_type = [],
              is_primary = False, is_indexed = False, is_nullable = False\<rparr>,
            \<lparr>Property.name = ''name'', type = PropertyTypeString, object_type = [],
              is_primary = False, is_indexed = False, is_nullable = False\<rparr>],
         primary_key = []\<rparr>
        (JSArray [Number 3, JSString ''Rex'']) = Inr (JSObject fs)
      \<and> get_property (JSObject fs) ''age'' = Number 3
      \<and> get_property (JSObject fs) ''name'' = JSString ''Rex'')"
proof -
  let ?os = "\<lparr>ObjectSchema.name = ''Dog'',
      properties =
        [\<lparr>Property.name = ''age'', type = PropertyTypeInt, object_type = [],
           is_primary = False, is_indexed = False, is_nullable = False\<rparr>,
         \<lparr>Property.name = ''name'', type = PropertyTypeString, object_type = [],
           is_primary = False, is_indexed = False, is_nullable = False\<rparr>],
      primary_key = []\<rparr>"
  have short: "validated_get_length (JSArray [Number 3]) = Inr 1 \<and> 1 \<noteq> length (properties ?os)"
    by simp
  from dict_for_property_array_pairs [of "JSArray [Number 3]" ?os] short
  have a: "dict_for_property_array ?os (JSArray [Number 3]) =
      Inl (runtime_error ''Array must contain values for all object properties'')"
    by blast
  have len: "validated_get_length (JSArray [Number 3, JSString ''Rex'']) =
      Inr (length (properties ?os))"
    by simp
  have dist: "distinct (map Property.name (properties ?os))"
    by simp
  from dict_for_property_array_pairs [of "JSArray [Number 3, JSString ''Rex'']" ?os] len dist
  obtain fs where
    r: "dict_for_property_array ?os (JSArray [Number 3, JSString ''Rex'']) = Inr (JSObject fs)" and
    v: "\<forall>i < length (properties ?os).
          get_property (JSObject fs) (Property.name (properties ?os ! i)) =
            get_property_index (JSArray [Number 3, JSString ''Rex'']) i"
    by blast
  from v [rule_format, of 0] have v0: "get_property (JSObject fs) ''age'' = Number 3"
    by simp
  from v [rule_format, of 1] have v1: "get_property (JSObject fs) ''name'' = JSString ''Rex''"
    by simp
  show ?thesis
    by (intro conjI exI [of _ fs] a r v0 v1)
qed

end
